theory Spec2Isabelle
  imports Main "HOL-Library.Word"
begin

unbundle bit_operations_syntax

section \<open>Data model of server.cc\<close>

text \<open>
  A \<open>std::string\<close> is a \<open>string\<close>: a list of 8-bit characters, so binary data
  (TOTP keys, HMAC outputs) and text share one type, as they do in the source.
  \<open>unsigned\<close> and \<open>uint32_t\<close> are \<open>32 word\<close>, \<open>uint64_t\<close> is \<open>64 word\<close>,
  \<open>uint8_t\<close> is \<open>8 word\<close>. The value of \<open>time(0)\<close> (a \<open>time_t\<close>, a signed 64-bit
  count of seconds) is an \<open>int\<close>; the places where the source narrows it are written out.
\<close>

datatype htAlgo = hAlgoSha1 | hAlgoSha256 | hAlgoSha512

record cred_t =
  password :: string
  totp :: string
  sduration :: "32 word"
  digits :: "32 word"
  period :: "32 word"
  algorithm :: htAlgo

record web_t =
  webtemplate :: string
  totp_generations :: "32 word"
  users :: "string \<rightharpoonup> cred_t"

type_synonym StrMap = "string \<rightharpoonup> string"

record web_req =
  req_method :: string
  host :: string
  uri :: string
  getvars :: StrMap
  postvars :: StrMap
  cookies :: StrMap
  ip64 :: "64 word"

text \<open>
  \<open>operator[]\<close> of the string-to-string \<open>StrMap\<close>: the stored value, or
  the empty string for a key that is not there.
\<close>

definition lookup_default :: "StrMap \<Rightarrow> string \<Rightarrow> string" where
  "lookup_default m k = (case m k of None \<Rightarrow> [] | Some v \<Rightarrow> v)"

text \<open>
  What C++ leaves undefined is a value of the model: an array read out of bounds, a
  division by zero, an overflow of a signed integer.
\<close>

datatype fault = OutOfBounds | DivisionByZero | SignedOverflow

section \<open>Functions the source takes from other headers\<close>

text \<open>
  \<open>util.h\<close>, \<open>ratelimit.h\<close>, \<open>templates.h\<close> and \<open>logger.h\<close> are not part of the
  sources at hand. What server.cc calls from them is a parameter of the model:
  the three HMAC functions and \<open>hexdecode\<close> (strings to strings), the template
  registry, and the two operations of the rate limiter on its state \<open>'rl\<close>
  (\<open>check\<close> may refresh the state it reads, so it returns the state as well).
\<close>

record 'rl helpers =
  hmac_sha1 :: "string \<Rightarrow> string \<Rightarrow> string"
  hmac_sha256 :: "string \<Rightarrow> string \<Rightarrow> string"
  hmac_sha512 :: "string \<Rightarrow> string \<Rightarrow> string"
  hexdecode :: "string \<Rightarrow> string"
  templates :: "string \<rightharpoonup> (string \<Rightarrow> string \<Rightarrow> bool \<Rightarrow> string)"
  rl_check :: "'rl \<Rightarrow> 64 word \<Rightarrow> bool \<times> 'rl"
  rl_consume :: "'rl \<Rightarrow> 64 word \<Rightarrow> 'rl"

text \<open>
  The object state of \<open>AuthenticationServer\<close> that request handling touches: the cookie
  secret, the rate limiter, and the lines handed to the logger (oldest first).
\<close>

record 'rl AuthenticationServer =
  cookie_secret :: string
  rl :: 'rl
  logger :: "string list"

definition log_line :: "string \<Rightarrow> 'rl AuthenticationServer \<Rightarrow> 'rl AuthenticationServer" where
  "log_line l srv = srv\<lparr>logger := logger srv @ [l]\<rparr>"

subsection \<open>Hex encoding and newline stripping\<close>

text \<open>
  Modelled from the spec: \<open>hexencode\<close> of util.h. "Hex uses lowercase, two nibbles per
  byte" (section 3), high nibble first.
\<close>

definition hex_digit :: "nat \<Rightarrow> char" where
  "hex_digit n = ''0123456789abcdef'' ! n"

definition hexencode :: "string \<Rightarrow> string" where
  "hexencode s = concat (map (\<lambda>c. [hex_digit (of_char c div 16), hex_digit (of_char c mod 16)]) s)"

text \<open>
  Modelled from the spec: the decoder of section 4.1, \<open>hex_decode(string) \<rightarrow> bytes\<close>,
  which "fails on odd length or non-hex digit". The source's \<open>hexdecode\<close> returns a plain
  string and server.cc never tests it for failure, so what it returns on a malformed
  field stays open: \<open>hexdecode\<close> is a parameter, and \<open>hex_decode\<close> is the reference it
  is compared with on well-formed fields.
\<close>

definition hex_val :: "char \<Rightarrow> nat option" where
  "hex_val c =
     (let n = (of_char c :: nat) in
      if 48 \<le> n \<and> n \<le> 57 then Some (n - 48)
      else if 97 \<le> n \<and> n \<le> 102 then Some (n - 87)
      else if 65 \<le> n \<and> n \<le> 70 then Some (n - 55)
      else None)"

fun hex_decode :: "string \<Rightarrow> string option" where
  "hex_decode [] = Some []"
| "hex_decode [a] = None"
| "hex_decode (a # b # r) =
     (case hex_val a of None \<Rightarrow> None | Some h \<Rightarrow>
      (case hex_val b of None \<Rightarrow> None | Some l \<Rightarrow>
       (case hex_decode r of None \<Rightarrow> None | Some t \<Rightarrow> Some (char_of (16 * h + l) # t))))"

definition hexdecode_ref :: "string \<Rightarrow> string" where
  "hexdecode_ref s = (case hex_decode s of None \<Rightarrow> [] | Some b \<Rightarrow> b)"

text \<open>
  Modelled from the spec: \<open>stripnl\<close> of util.h. "The follow_page location is sanitized by
  removing any CR and LF characters" (section 4.6).
\<close>

definition CR :: char where "CR = CHR 0x0D"
definition LF :: char where "LF = CHR 0x0A"

definition stripnl :: "string \<Rightarrow> string" where
  "stripnl s = filter (\<lambda>c. c \<noteq> CR \<and> c \<noteq> LF) s"

section \<open>Library functions\<close>

subsection \<open>std::to_string\<close>

definition digit_char :: "nat \<Rightarrow> char" where
  "digit_char d = char_of (48 + d)"

function dec_string :: "nat \<Rightarrow> string" where
  "dec_string n = (if n < 10 then [digit_char n] else dec_string (n div 10) @ [digit_char (n mod 10)])"
  by pat_completeness auto
termination
  by (relation "measure id") auto

declare dec_string.simps [simp del]

definition to_string :: "int \<Rightarrow> string" where
  "to_string i = (if i < 0 then CHR ''-'' # dec_string (nat (- i)) else dec_string (nat i))"

text \<open>A string of one or more decimal digits.\<close>

definition is_digit_string :: "string \<Rightarrow> bool" where
  "is_digit_string s = (s \<noteq> [] \<and> list_all (\<lambda>c. \<exists>d<10. c = digit_char d) s)"

subsection \<open>atol and atoi\<close>

text \<open>
  \<open>atol\<close> is \<open>strtol(s, NULL, 10)\<close> and \<open>atoi\<close> is that value narrowed to \<open>int\<close>, as in
  glibc: white space is skipped, one sign is read, then the longest run of digits; a
  string with no digits there gives 0, and a value outside \<open>long\<close> is clamped to
  \<open>LONG_MIN\<close> or \<open>LONG_MAX\<close>. Scanning stops at the first character that is no digit,
  which covers the terminating NUL of \<open>c_str()\<close>.
\<close>

definition isspace :: "char \<Rightarrow> bool" where
  "isspace c = (c = CHR '' '' \<or> c = CHR 0x09 \<or> c = CHR 0x0A \<or> c = CHR 0x0B \<or> c = CHR 0x0C \<or> c = CHR 0x0D)"

definition isdigit :: "char \<Rightarrow> bool" where
  "isdigit c = (48 \<le> (of_char c :: nat) \<and> (of_char c :: nat) \<le> 57)"

fun digits_value :: "nat \<Rightarrow> string \<Rightarrow> nat" where
  "digits_value acc [] = acc"
| "digits_value acc (c # cs) =
     (if isdigit c then digits_value (10 * acc + (of_char c - 48)) cs else acc)"

definition LONG_MAX :: int where "LONG_MAX = 2 ^ 63 - 1"
definition LONG_MIN :: int where "LONG_MIN = - (2 ^ 63)"

definition strtol :: "string \<Rightarrow> int" where
  "strtol s =
     (let s1 = dropWhile isspace s in
      case s1 of
        [] \<Rightarrow> 0
      | c # r \<Rightarrow>
          if c = CHR ''-'' then max LONG_MIN (- int (digits_value 0 r))
          else if c = CHR ''+'' then min LONG_MAX (int (digits_value 0 r))
          else min LONG_MAX (int (digits_value 0 s1)))"

definition atol :: "string \<Rightarrow> int" where
  "atol s = strtol s"

definition atoi :: "string \<Rightarrow> 32 word" where
  "atoi s = word_of_int (strtol s)"

subsection \<open>std::string::find and substr\<close>

fun find_first :: "char \<Rightarrow> string \<Rightarrow> nat option" where
  "find_first c [] = None"
| "find_first c (x # xs) = (if x = c then Some 0 else map_option Suc (find_first c xs))"

text \<open>\<open>s.find(c, pos)\<close>: the first index at or after \<open>pos\<close> that holds \<open>c\<close>; \<open>None\<close> is \<open>npos\<close>.\<close>

definition find_char :: "string \<Rightarrow> char \<Rightarrow> nat \<Rightarrow> nat option" where
  "find_char s c pos =
     (if length s \<le> pos then None else map_option (\<lambda>i. pos + i) (find_first c (drop pos s)))"

text \<open>
  \<open>s.substr(pos, n)\<close> and \<open>s.substr(pos)\<close> for \<open>pos \<le> s.size()\<close>. The source only calls
  them at 0 and right after a position that \<open>find\<close> returned (lemma \<open>find_char_less\<close>
  below), so the exception for \<open>pos > s.size()\<close> is never raised.
\<close>

definition substr :: "string \<Rightarrow> nat \<Rightarrow> nat \<Rightarrow> string" where
  "substr s pos n = take n (drop pos s)"

definition substr_from :: "string \<Rightarrow> nat \<Rightarrow> string" where
  "substr_from s pos = drop pos s"

section \<open>Session cookies (server.cc, lines 104-133)\<close>

definition create_cookie :: "'rl helpers \<Rightarrow> string \<Rightarrow> int \<Rightarrow> string \<Rightarrow> string" where
  "create_cookie H secret now user =
     (let payload = to_string now @ '':'' @ hexencode user
      in payload @ '':'' @ hexencode (hmac_sha1 H secret payload))"

text \<open>
  Line 128 compares \<open>(unsigned)time(0)\<close>, the clock narrowed to 32 bits and widened
  again, with \<open>ets + duration\<close> computed in \<open>uint64_t\<close>.
\<close>

definition cookie_too_old :: "int \<Rightarrow> 64 word \<Rightarrow> 32 word \<Rightarrow> bool" where
  "cookie_too_old now ets duration =
     ((ucast (word_of_int now :: 32 word) :: 64 word) > ets + ucast duration)"

definition check_cookie :: "'rl helpers \<Rightarrow> string \<Rightarrow> string \<Rightarrow> web_t \<Rightarrow> int \<Rightarrow> bool" where
  "check_cookie H secret cookie wcfg now =
     (case find_char cookie CHR '':'' 0 of
        None \<Rightarrow> False
      | Some p1 \<Rightarrow>
         (case find_char cookie CHR '':'' (p1 + 1) of
            None \<Rightarrow> False
          | Some p2 \<Rightarrow>
             (let c1 = substr cookie 0 p1;
                  user = hexdecode H (substr cookie (p1 + 1) (p2 - p1 - 1));
                  hmac = hexdecode H (substr_from cookie (p2 + 1));
                  ets = (word_of_int (atol c1) :: 64 word)
              in case users wcfg user of
                   None \<Rightarrow> False
                 | Some cred \<Rightarrow>
                    if cookie_too_old now ets (sduration cred) then False
                    else hmac = hmac_sha1 H secret (substr cookie 0 p2))))"

section \<open>TOTP (server.cc, lines 230-263)\<close>

definition po10 :: "32 word list" where
  "po10 = [1, 10, 100, 1000, 10000, 100000, 1000000, 10000000, 100000000, 1000000000]"

definition algtbl :: "'rl helpers \<Rightarrow> htAlgo \<Rightarrow> string \<Rightarrow> string \<Rightarrow> string" where
  "algtbl H algo =
     (case algo of hAlgoSha1 \<Rightarrow> hmac_sha1 H | hAlgoSha256 \<Rightarrow> hmac_sha256 H | hAlgoSha512 \<Rightarrow> hmac_sha512 H)"

text \<open>The eight bytes of \<open>msg\<close>: four zero bytes, then \<open>epoch\<close> in big-endian order.\<close>

definition epoch_msg :: "32 word \<Rightarrow> string" where
  "epoch_msg epoch =
     [CHR 0x00, CHR 0x00, CHR 0x00, CHR 0x00,
      char_of (unat (drop_bit 24 epoch)),
      char_of (unat (drop_bit 16 epoch AND 255)),
      char_of (unat (drop_bit 8 epoch AND 255)),
      char_of (unat (epoch AND 255))]"

text \<open>
  \<open>hash[i]\<close> reads the buffer of \<open>hashs.c_str()\<close>: the bytes of the string, then the
  terminating NUL at index \<open>hashs.size()\<close>. Any other index is out of bounds.
\<close>

definition c_str_at :: "string \<Rightarrow> nat \<Rightarrow> fault + 8 word" where
  "c_str_at s i =
     (if i < length s then Inr (of_char (s ! i))
      else if i = length s then Inr 0
      else Inl OutOfBounds)"

text \<open>
  Lines 260-261: the four bytes, each promoted to \<open>int\<close> and shifted, are or-ed into
  a \<open>uint32_t\<close>, which is then masked with \<open>0x7fffffff\<close>.
\<close>

definition assemble32 :: "8 word \<Rightarrow> 8 word \<Rightarrow> 8 word \<Rightarrow> 8 word \<Rightarrow> 32 word" where
  "assemble32 b0 b1 b2 b3 =
     push_bit 24 (ucast b0) OR push_bit 16 (ucast b1) OR push_bit 8 (ucast b2) OR ucast b3"

text \<open>
  \<open>totp_calc\<close>. Its parameter \<open>digits\<close> is written \<open>ndigits\<close> here (\<open>digits\<close> is the
  field of \<open>cred_t\<close>). \<open>hash[hashs.size() - 1]\<close> on an empty string reads index
  \<open>SIZE_MAX\<close>.
\<close>

definition totp_calc :: "'rl helpers \<Rightarrow> string \<Rightarrow> htAlgo \<Rightarrow> 8 word \<Rightarrow> 32 word \<Rightarrow> fault + 32 word" where
  "totp_calc H key algo ndigits epoch =
     (let hashs = algtbl H algo key (epoch_msg epoch) in
      if hashs = [] then Inl OutOfBounds
      else
        let off = unat ((of_char (last hashs) :: 8 word) AND 15) in
        case c_str_at hashs off of Inl f \<Rightarrow> Inl f | Inr b0 \<Rightarrow>
        (case c_str_at hashs (off + 1) of Inl f \<Rightarrow> Inl f | Inr b1 \<Rightarrow>
        (case c_str_at hashs (off + 2) of Inl f \<Rightarrow> Inl f | Inr b2 \<Rightarrow>
        (case c_str_at hashs (off + 3) of Inl f \<Rightarrow> Inl f | Inr b3 \<Rightarrow>
           let v = assemble32 b0 b1 b2 b3 AND 0x7fffffff in
           if unat ndigits < length po10 then Inr (v mod (po10 ! unat ndigits))
           else Inl OutOfBounds))))"

text \<open>
  The offset of lines 258 and of section 4.2 alike: the low nibble of the last byte.
\<close>

definition hotp_offset :: "string \<Rightarrow> nat" where
  "hotp_offset h = unat ((of_char (h ! (length h - 1)) :: 8 word) AND 0x0F)"

text \<open>
  Modelled from the spec: HOTP as section 4.2 words it, with bit 31 cleared on the byte
  \<open>h[offset]\<close> before the four bytes are assembled (\<open>hotp_value_spec\<close>), and the result
  taken modulo \<open>10 ^ digits\<close> (\<open>hotp_spec\<close>). It is the reference the source's
  \<open>totp_calc\<close> is compared with.
\<close>

definition hotp_value_spec :: "string \<Rightarrow> 32 word" where
  "hotp_value_spec h =
     (let off = hotp_offset h in
      push_bit 24 (ucast ((of_char (h ! off) :: 8 word) AND 0x7F))
        OR push_bit 16 (ucast (of_char (h ! (off + 1)) :: 8 word))
        OR push_bit 8 (ucast (of_char (h ! (off + 2)) :: 8 word))
        OR ucast (of_char (h ! (off + 3)) :: 8 word))"

text \<open>
  Lines 260-261 of the source on a hash that holds the four bytes: the value before
  the reduction modulo \<open>po10[digits]\<close>, bit 31 cleared after the bytes are assembled.
\<close>

definition hotp_value_code :: "string \<Rightarrow> 32 word" where
  "hotp_value_code h =
     (let off = hotp_offset h in
      assemble32 (of_char (h ! off)) (of_char (h ! (off + 1)))
                 (of_char (h ! (off + 2))) (of_char (h ! (off + 3))) AND 0x7fffffff)"

definition hotp_spec :: "'rl helpers \<Rightarrow> string \<Rightarrow> htAlgo \<Rightarrow> nat \<Rightarrow> 32 word \<Rightarrow> nat" where
  "hotp_spec H key algo d counter =
     unat (hotp_value_spec (algtbl H algo key (epoch_msg counter))) mod 10 ^ d"

text \<open>
  Line 231: \<open>time(0) / user.period\<close> divides two \<open>long\<close> values (the \<open>unsigned\<close> period is
  widened), truncating towards zero; the quotient is then narrowed to \<open>uint32_t\<close>.
\<close>

definition c_div :: "int \<Rightarrow> int \<Rightarrow> int" where
  "c_div a b = sgn a * sgn b * (\<bar>a\<bar> div \<bar>b\<bar>)"

definition INT_MAX :: int where "INT_MAX = 2 ^ 31 - 1"
definition INT_MIN :: int where "INT_MIN = - (2 ^ 31)"

text \<open>
  The loop of lines 232-234 from the value \<open>i\<close> of its \<open>int\<close> counter, with the bound
  \<open>hi = (signed)generations\<close>. \<open>ct + i\<close> is computed in \<open>uint32_t\<close>. Incrementing
  \<open>i = INT_MAX\<close> overflows.
\<close>

function totp_loop :: "'rl helpers \<Rightarrow> cred_t \<Rightarrow> 32 word \<Rightarrow> 32 word \<Rightarrow> int \<Rightarrow> int \<Rightarrow> fault + bool" where
  "totp_loop H user input ct hi i =
     (if i \<le> hi then
        (case totp_calc H (totp user) (algorithm user) (ucast (digits user)) (ct + word_of_int i) of
           Inl f \<Rightarrow> Inl f
         | Inr v \<Rightarrow>
             if v = input then Inr True
             else if i = INT_MAX then Inl SignedOverflow
             else totp_loop H user input ct hi (i + 1))
      else Inr False)"
  by pat_completeness auto
termination
  by (relation "measure (\<lambda>(H, user, input, ct, hi, i). nat (hi + 1 - i))") auto

declare totp_loop.simps [simp del]

text \<open>
  \<open>(signed)generations\<close> reads the 32 bits as two's complement; negating \<open>INT_MIN\<close>
  overflows. A period of 0 divides by zero.
\<close>

definition totp_valid :: "'rl helpers \<Rightarrow> cred_t \<Rightarrow> 32 word \<Rightarrow> 32 word \<Rightarrow> int \<Rightarrow> fault + bool" where
  "totp_valid H user input generations now =
     (if period user = 0 then Inl DivisionByZero
      else
        let ct = (word_of_int (c_div now (uint (period user))) :: 32 word);
            g = sint generations
        in if g = INT_MIN then Inl SignedOverflow
           else totp_loop H user input ct g (- g))"

section \<open>Request handling (server.cc, lines 135-210)\<close>

definition CRLF :: string where "CRLF = [CR, LF]"

text \<open>Lines 136-140: the page to return to after login.\<close>

definition follow_page :: "web_req \<Rightarrow> string" where
  "follow_page req =
     (let rpage = lookup_default (getvars req) ''follow_page'';
          rpage = (if rpage = [] then lookup_default (postvars req) ''follow_page'' else rpage)
      in if rpage = [] then ''/'' else rpage)"

text \<open>Lines 190-198: the login page, or 500 when the host's template is not registered.\<close>

definition login_page :: "'rl helpers \<Rightarrow> web_req \<Rightarrow> web_t \<Rightarrow> string \<Rightarrow> bool \<Rightarrow> string" where
  "login_page H req wcfg rpage lerror =
     (case templates H (webtemplate wcfg) of
        None \<Rightarrow>
          ''Status: 500'' @ CRLF @ ''Content-Type: text/plain'' @ CRLF @
          ''Content-Length: 23'' @ CRLF @ CRLF @ ''Could not find template''
      | Some t \<Rightarrow>
          (let page = t (host req) rpage lerror in
           ''Status: 200'' @ CRLF @ ''Content-Type: text/html'' @ CRLF @
           ''Content-Length: '' @ to_string (int (length page)) @ CRLF @ CRLF @ page))"

text \<open>
  Lines 173-175: the conjunction that decides a login, evaluated left to right and
  stopping at the first operand that is false. \<open>now\<close> is what \<open>time(0)\<close> returns inside
  \<open>totp_valid\<close>.
\<close>

definition credentials_ok :: "'rl helpers \<Rightarrow> web_t \<Rightarrow> string \<Rightarrow> string \<Rightarrow> 32 word \<Rightarrow> int \<Rightarrow> fault + bool" where
  "credentials_ok H wcfg user pass code now =
     (case users wcfg user of
        None \<Rightarrow> Inr False
      | Some cred \<Rightarrow>
          if password cred = pass then totp_valid H cred code (totp_generations wcfg) now
          else Inr False)"

text \<open>
  Lines 166-198: what \<open>/login\<close> does once the rate limiter has let the request pass.
  \<open>t_check\<close> is the clock read by \<open>totp_valid\<close>, \<open>t_issue\<close> the clock read afterwards by
  \<open>create_cookie\<close>.
\<close>

definition login_form ::
  "'rl helpers \<Rightarrow> int \<Rightarrow> int \<Rightarrow> 'rl AuthenticationServer \<Rightarrow> web_req \<Rightarrow> web_t \<Rightarrow> string
     \<Rightarrow> fault + (string \<times> 'rl AuthenticationServer)" where
  "login_form H t_check t_issue srv req wcfg rpage =
     (if req_method req = ''POST'' then
        (let user = lookup_default (postvars req) ''username'';
             pass = lookup_default (postvars req) ''password'';
             code = atoi (lookup_default (postvars req) ''totp'')
         in case credentials_ok H wcfg user pass code t_check of
              Inl f \<Rightarrow> Inl f
            | Inr True \<Rightarrow>
                (let srv1 = log_line (''Login successful for user '' @ user) srv;
                     token = create_cookie H (cookie_secret srv) t_issue user
                 in Inr (''Status: 302'' @ CRLF @ ''Set-Cookie: authentication-token='' @ token @
                         CRLF @ ''Location: '' @ stripnl rpage @ CRLF @ CRLF, srv1))
            | Inr False \<Rightarrow>
                Inr (login_page H req wcfg rpage True,
                     log_line (''Failed login for user '' @ user) srv))
      else Inr (login_page H req wcfg rpage False, srv))"

text \<open>
  \<open>process_req\<close>. \<open>t_check\<close> is the first value \<open>time(0)\<close> returns while the request is
  handled (inside \<open>check_cookie\<close> or \<open>totp_valid\<close>), \<open>t_issue\<close> the second.
\<close>

definition process_req ::
  "'rl helpers \<Rightarrow> int \<Rightarrow> int \<Rightarrow> 'rl AuthenticationServer \<Rightarrow> web_req \<Rightarrow> web_t
     \<Rightarrow> fault + (string \<times> 'rl AuthenticationServer)" where
  "process_req H t_check t_issue srv req wcfg =
     (let rpage = follow_page req in
      if uri req = ''/auth'' then
        (let authed = check_cookie H (cookie_secret srv)
                        (lookup_default (cookies req) ''authentication-token'') wcfg t_check
         in if authed then
              Inr (''Status: 200'' @ CRLF @ ''Content-Type: text/plain'' @ CRLF @
                   ''Content-Length: 24'' @ CRLF @ CRLF @ ''Authentication Succeeded'',
                   log_line ''Requested authentication succeeded'' srv)
            else
              Inr (''Status: 401'' @ CRLF @ ''Content-Type: text/plain'' @ CRLF @
                   ''Content-Length: 21'' @ CRLF @ CRLF @ ''Authentication Denied'',
                   log_line ''Requested authentication denied'' srv))
      else if uri req = ''/login'' then
        (case rl_check H (rl srv) (ip64 req) of
           (blocked, rl1) \<Rightarrow>
             if blocked then
               Inr (''Status: 429'' @ CRLF @ ''Content-Type: text/plain'' @ CRLF @
                    ''Content-Length: 34'' @ CRLF @ CRLF @ ''Too many requests, request blocked'',
                    log_line (''Rate limit hit for ip id '' @ to_string (uint (ip64 req)))
                      (srv\<lparr>rl := rl1\<rparr>))
             else
               login_form H t_check t_issue (srv\<lparr>rl := rl_consume H rl1 (ip64 req)\<rparr>) req wcfg rpage)
      else if uri req = ''/logout'' then
        Inr (''Status: 302'' @ CRLF @ ''Set-Cookie: authentication-token=null'' @ CRLF @
             ''Cache-Control: no-cache, no-store, max-age=0'' @ CRLF @
             ''Location: /login'' @ CRLF @ CRLF,
             log_line ''Logout requested'' srv)
      else
        Inr (''Status: 404'' @ CRLF @ ''Content-Type: text/plain'' @ CRLF @
             ''Content-Length: 48'' @ CRLF @
             ''Not found, valid endpoints: /auth /login /logout'' @ CRLF @ CRLF,
             log_line (''Unknown request for URL: '' @ uri req) srv))"

section \<open>Client address (server.cc, lines 292-302)\<close>

text \<open>
  \<open>inet_pton\<close> is the C library's: its two parsers are parameters. An \<open>in6_addr\<close> is the
  list of its 16 bytes \<open>s6_addr\<close>; an \<open>in_addr\<close> is its 32-bit field \<open>s_addr\<close>, which
  \<open>inet_pton\<close> stores in network byte order.
\<close>

definition ip64_of_in6 :: "8 word list \<Rightarrow> 64 word" where
  "ip64_of_in6 s6_addr =
     push_bit 40 (ucast (s6_addr ! 0)) OR push_bit 32 (ucast (s6_addr ! 1)) OR
     push_bit 24 (ucast (s6_addr ! 2)) OR push_bit 16 (ucast (s6_addr ! 3)) OR
     push_bit 8 (ucast (s6_addr ! 4)) OR ucast (s6_addr ! 5)"

definition remote_ip64 ::
  "(string \<Rightarrow> 8 word list option) \<Rightarrow> (string \<Rightarrow> 32 word option) \<Rightarrow> string \<Rightarrow> 64 word" where
  "remote_ip64 pton6 pton4 sip =
     (case pton6 sip of
        Some res6 \<Rightarrow> ip64_of_in6 res6
      | None \<Rightarrow> (case pton4 sip of Some s_addr \<Rightarrow> ucast s_addr | None \<Rightarrow> 0))"

section \<open>Reading a response\<close>

text \<open>
  Modelled from the spec: the response format of section 6, "headers followed by a blank
  line followed by the body". \<open>resp_head\<close> is the text before the first blank line,
  \<open>resp_body\<close> the text after it (\<open>None\<close> when there is no blank line), and
  \<open>resp_header\<close> the value of the first header line with a given name.
\<close>

fun resp_body :: "string \<Rightarrow> string option" where
  "resp_body (a # b # c # d # r) =
     (if a = CR \<and> b = LF \<and> c = CR \<and> d = LF then Some r else resp_body (b # c # d # r))"
| "resp_body s = None"

fun resp_head :: "string \<Rightarrow> string" where
  "resp_head (a # b # c # d # r) =
     (if a = CR \<and> b = LF \<and> c = CR \<and> d = LF then [] else a # resp_head (b # c # d # r))"
| "resp_head s = s"

fun split_crlf :: "string \<Rightarrow> string list" where
  "split_crlf (a # b # r) =
     (if a = CR \<and> b = LF then [] # split_crlf r
      else (case split_crlf (b # r) of l # ls \<Rightarrow> (a # l) # ls | [] \<Rightarrow> [[a]]))"
| "split_crlf s = [s]"

fun header_value :: "string \<Rightarrow> string list \<Rightarrow> string option" where
  "header_value name [] = None"
| "header_value name (l # ls) =
     (if take (length name + 2) l = name @ '': '' then Some (drop (length name + 2) l)
      else header_value name ls)"

definition resp_header :: "string \<Rightarrow> string \<Rightarrow> string option" where
  "resp_header name r = header_value name (split_crlf (resp_head r))"

section \<open>Properties of the helper parameters\<close>

text \<open>
  The output sizes of the three HMAC functions: 20 bytes for SHA-1, 32 for SHA-256,
  64 for SHA-512.
\<close>

definition hmac_output_sizes :: "'rl helpers \<Rightarrow> bool" where
  "hmac_output_sizes H =
     (\<forall>k m. length (hmac_sha1 H k m) = 20 \<and> length (hmac_sha256 H k m) = 32 \<and>
            length (hmac_sha512 H k m) = 64)"

text \<open>\<open>hexdecode\<close> inverts \<open>hexencode\<close>.\<close>

definition hexdecode_inverts :: "'rl helpers \<Rightarrow> bool" where
  "hexdecode_inverts H = (\<forall>b. hexdecode H (hexencode b) = b)"

section \<open>The three fields of a cookie\<close>

text \<open>
  Lines 113-121 of \<open>check_cookie\<close> on their own: the text before the first colon, the
  text between the first two colons, and the text after the second; \<open>None\<close> when the
  cookie has fewer than two colons.
\<close>

definition cookie_fields :: "string \<Rightarrow> (string \<times> string \<times> string) option" where
  "cookie_fields cookie =
     (case find_char cookie CHR '':'' 0 of
        None \<Rightarrow> None
      | Some p1 \<Rightarrow>
         (case find_char cookie CHR '':'' (p1 + 1) of
            None \<Rightarrow> None
          | Some p2 \<Rightarrow>
              Some (substr cookie 0 p1, substr cookie (p1 + 1) (p2 - p1 - 1),
                    substr_from cookie (p2 + 1))))"

text \<open>
  A string in which \<open>strtol\<close> finds no number: after the white space and one optional
  sign, the next character is not a digit.
\<close>

definition no_number :: "string \<Rightarrow> bool" where
  "no_number s =
     (case dropWhile isspace s of
        [] \<Rightarrow> True
      | c # r \<Rightarrow>
          if c = CHR ''-'' \<or> c = CHR ''+'' then (case r of [] \<Rightarrow> True | d # r' \<Rightarrow> \<not> isdigit d)
          else \<not> isdigit c)"

section \<open>A concrete instance\<close>

text \<open>
  An instance of the helper parameters on which the model runs: \<open>hexdecode_ref\<close> for
  \<open>hexdecode\<close>, one registered template, a limiter that counts the tokens left per key,
  and a stand-in for the HMAC functions that has their output sizes (the first bytes
  of message and key, padded with zero bytes). The theorems below hold for every
  instance; this one supplies concrete inputs.
\<close>

definition demo_hmac :: "nat \<Rightarrow> string \<Rightarrow> string \<Rightarrow> string" where
  "demo_hmac n key msg = take n (msg @ key @ replicate n (CHR 0x00))"

definition demo_templates :: "string \<rightharpoonup> (string \<Rightarrow> string \<Rightarrow> bool \<Rightarrow> string)" where
  "demo_templates =
     [''plain'' \<mapsto> (\<lambda>h rpage lerror. (if lerror then ''error '' else ''login '') @ h @ '' '' @ rpage)]"

definition demo :: "(64 word \<Rightarrow> nat) helpers" where
  "demo = \<lparr>hmac_sha1 = demo_hmac 20, hmac_sha256 = demo_hmac 32, hmac_sha512 = demo_hmac 64,
           hexdecode = hexdecode_ref, templates = demo_templates,
           rl_check = (\<lambda>s k. (s k = 0, s)), rl_consume = (\<lambda>s k. s(k := s k - 1))\<rparr>"

definition alice :: cred_t where
  "alice = \<lparr>password = ''pw'', totp = ''abcdefghijk'' @ [CHR 0x04], sduration = 3600,
            digits = 6, period = 30, algorithm = hAlgoSha1\<rparr>"

definition bob :: cred_t where
  "bob = \<lparr>password = ''hunter2'', totp = ''abcdefghijk'' @ [CHR 0x04], sduration = 4000000000,
          digits = 6, period = 30, algorithm = hAlgoSha1\<rparr>"

definition demo_web :: web_t where
  "demo_web = \<lparr>webtemplate = ''plain'', totp_generations = 1,
               users = [''alice'' \<mapsto> alice, ''bob'' \<mapsto> bob]\<rparr>"

definition demo_srv :: "(64 word \<Rightarrow> nat) AuthenticationServer" where
  "demo_srv = \<lparr>cookie_secret = ''s3cr3t'', rl = (\<lambda>k. 2), logger = []\<rparr>"

definition demo_req :: web_req where
  "demo_req = \<lparr>req_method = ''GET'', host = ''example.org'', uri = ''/auth'',
               getvars = Map.empty, postvars = Map.empty, cookies = Map.empty, ip64 = 7\<rparr>"

definition demo_req_authed :: web_req where
  "demo_req_authed =
     demo_req\<lparr>cookies := [''authentication-token'' \<mapsto>
                           create_cookie demo ''s3cr3t'' 1800000000 ''alice'']\<rparr>"

text \<open>
  A request whose cookie is malformed: text follows the digits of its first field.
  Its third field is the MAC of its own first two fields.
\<close>

definition demo_req_junk :: web_req where
  "demo_req_junk =
     demo_req\<lparr>cookies := [''authentication-token'' \<mapsto>
       ''1800000000junk'' @ '':'' @ hexencode ''alice'' @ '':'' @
       hexencode (hmac_sha1 demo ''s3cr3t'' (''1800000000junk'' @ '':'' @ hexencode ''alice''))]\<rparr>"

text \<open>
  A login form posted for \<open>alice\<close> with the password \<open>pw\<close> and the code 0, which is
  her code at the clock 1800000000; the follow page carries a CR LF pair.
\<close>

definition demo_login :: "string \<Rightarrow> web_req" where
  "demo_login pw =
     \<lparr>req_method = ''POST'', host = ''example.org'', uri = ''/login'', getvars = Map.empty,
      postvars = [''username'' \<mapsto> ''alice'', ''password'' \<mapsto> pw, ''totp'' \<mapsto> ''0'',
                  ''follow_page'' \<mapsto> ''/home'' @ [CR, LF] @ ''X: 1''],
      cookies = Map.empty, ip64 = 7\<rparr>"


text \<open>
  Two tables that stand in for \<open>inet_pton\<close>: the bytes of two IPv6 addresses, and the
  \<open>s_addr\<close> of one IPv4 address, whose bytes 192, 0, 2, 1 in network order read
  \<open>0x010200C0\<close> on a little-endian host.
\<close>

definition demo_pton6 :: "string \<Rightarrow> 8 word list option" where
  "demo_pton6 s =
     (if s = ''0:0:1::'' then Some [0, 0, 0, 0, 0, 1, 0, 0, 0, 0, 0, 0, 0, 0, 0, 0]
      else if s = ''2001:db8:1234::1''
        then Some [0x20, 0x01, 0x0d, 0xb8, 0x12, 0x34, 0, 0, 0, 0, 0, 0, 0, 0, 0, 1]
      else None)"

definition demo_pton4 :: "string \<Rightarrow> 32 word option" where
  "demo_pton4 s = (if s = ''192.0.2.1'' then Some 0x010200C0 else None)"

section \<open>Properties\<close>

subsection \<open>HOTP truncation\<close>

lemma mask_after_eq_mask_before:
  "assemble32 b0 b1 b2 b3 AND 0x7fffffff =
     push_bit 24 (ucast (b0 AND 0x7F)) OR push_bit 16 (ucast b1) OR push_bit 8 (ucast b2) OR ucast b3"
proof -
  have m31: "(0x7fffffff :: 32 word) = mask 31" by (simp add: mask_eq_exp_minus_1)
  have m7: "(0x7F :: 8 word) = mask 7" by (simp add: mask_eq_exp_minus_1)
  show ?thesis
    unfolding assemble32_def m31 m7
    by (rule bit_word_eqI) (auto simp add: bit_simps dest: bit_imp_le_length)
qed

lemma hotp_value_code_eq_spec: "hotp_value_code h = hotp_value_spec h"
  by (simp add: hotp_value_code_def hotp_value_spec_def Let_def mask_after_eq_mask_before)

lemma offset_le_15: "unat ((w :: 8 word) AND 15) \<le> 15"
proof -
  have "w AND 15 \<le> 15" by (rule word_and_le1)
  then show ?thesis by (simp add: word_le_nat_alt)
qed

lemma po10_nth: "n < 10 \<Longrightarrow> po10 ! n = 10 ^ n"
proof -
  assume "n < 10"
  then consider "n = 0" | "n = 1" | "n = 2" | "n = 3" | "n = 4" | "n = 5" | "n = 6" | "n = 7" | "n = 8" | "n = 9"
    by atomize_elim arith
  then show ?thesis by cases (simp_all add: po10_def)
qed

lemma unat_pow10: "n < 10 \<Longrightarrow> unat ((10 :: 32 word) ^ n) = 10 ^ n"
proof -
  assume "n < 10"
  then consider "n = 0" | "n = 1" | "n = 2" | "n = 3" | "n = 4" | "n = 5" | "n = 6" | "n = 7" | "n = 8" | "n = 9"
    by atomize_elim arith
  then show ?thesis by cases simp_all
qed

lemma length_po10: "length po10 = 10"
  by (simp add: po10_def)

lemma totp_calc_in_bounds:
  assumes "19 \<le> length (algtbl H algo key (epoch_msg epoch))" and "unat d < 10"
  shows "totp_calc H key algo d epoch =
           Inr (hotp_value_code (algtbl H algo key (epoch_msg epoch)) mod 10 ^ unat d)"
proof -
  define h where "h = algtbl H algo key (epoch_msg epoch)"
  define off where "off = unat ((of_char (last h) :: 8 word) AND 15)"
  have len: "19 \<le> length h" using assms(1) by (simp add: h_def)
  then have ne: "h \<noteq> []" by auto
  have off15: "off \<le> 15" unfolding off_def by (rule offset_le_15)
  have off_eq: "hotp_offset h = off"
    using ne by (simp add: hotp_offset_def off_def last_conv_nth)
  have r: "c_str_at h (off + k) = Inr (of_char (h ! (off + k)))" if "k \<le> 3" for k
    using that off15 len by (auto simp add: c_str_at_def)
  show ?thesis
   unfolding totp_calc_def h_def[symmetric] Let_def off_def[symmetric]
   using ne assms(2) r[of 0] r[of 1] r[of 2] r[of 3] off15 len
   by (simp add: po10_nth length_po10 hotp_value_code_def off_eq Let_def)
qed

lemma of_char_char_of_nat:
  "(of_char (char_of (n :: nat)) :: 'a :: comm_semiring_1) = of_nat (n mod 256)"
proof -
  have "(of_char (char_of n) :: 'a) = of_nat (of_char (char_of n))"
    by (simp only: of_nat_of_char)
  then show ?thesis by simp
qed

lemma length_demo_hmac: "length (demo_hmac n key msg) = n"
proof -
  have "n \<le> length (msg @ key @ replicate n (CHR 0x00))" by simp
  then show ?thesis unfolding demo_hmac_def by (simp only: length_take min_absorb2)
qed

lemma demo_sizes: "hmac_output_sizes demo"
  by (simp add: hmac_output_sizes_def demo_def length_demo_hmac)

lemma algtbl_length:
  "hmac_output_sizes H \<Longrightarrow> 20 \<le> length (algtbl H algo key msg)"
  by (cases algo) (simp_all add: hmac_output_sizes_def algtbl_def)

lemma unat_digits: "(d :: 8 word) \<le> 9 \<Longrightarrow> unat d < 10"
  by (simp add: word_le_nat_alt)

text \<open>
  Claim C2. Masking the assembled 32-bit word with \<open>0x7FFFFFFF\<close>, as \<open>totp_calc\<close> does,
  gives the value of the spec's formula, which masks \<open>h[off]\<close> with \<open>0x7F\<close> before
  assembling, for every string \<open>h\<close>; and for an HMAC output of at least 20 bytes and
  6 to 9 digits \<open>totp_calc\<close> returns that value modulo \<open>10 ^ d\<close>, the HOTP of section 4.2.
\<close>

theorem hotp_truncation_equivalence:
  assumes "20 \<le> length (algtbl H algo key (epoch_msg epoch))" and "6 \<le> d" and "d \<le> 9"
  shows "hotp_value_code h = hotp_value_spec h \<and>
         (\<exists>r. totp_calc H key algo d epoch = Inr r \<and>
              unat r = hotp_spec H key algo (unat d) epoch)"
proof -
  have d10: "unat d < 10" using assms(3) by (rule unat_digits)
  have "totp_calc H key algo d epoch =
          Inr (hotp_value_code (algtbl H algo key (epoch_msg epoch)) mod 10 ^ unat d)"
    using assms(1) d10 by (intro totp_calc_in_bounds) simp_all
  moreover have "unat (hotp_value_code (algtbl H algo key (epoch_msg epoch)) mod 10 ^ unat d)
      = hotp_spec H key algo (unat d) epoch"
    using d10 by (simp add: hotp_spec_def unat_mod unat_pow10 hotp_value_code_eq_spec)
  ultimately show ?thesis by (simp add: hotp_value_code_eq_spec)
qed

text \<open>The theorem at the SHA-1 slot of the concrete instance, counter 60000001, 6 digits.\<close>

theorem hotp_truncation_equivalence_witness:
  "20 \<le> length (algtbl demo hAlgoSha1 (totp alice) (epoch_msg 60000001)) \<and> (6 :: 8 word) \<le> 6 \<and> (6 :: 8 word) \<le> 9 \<and>
   hotp_value_code (algtbl demo hAlgoSha1 (totp alice) (epoch_msg 60000001)) = hotp_value_spec (algtbl demo hAlgoSha1 (totp alice) (epoch_msg 60000001)) \<and>
   (\<exists>r. totp_calc demo (totp alice) hAlgoSha1 6 60000001 = Inr r \<and>
              unat r = hotp_spec demo (totp alice) hAlgoSha1 (unat (6 :: 8 word)) 60000001)"
proof -
  have h: "20 \<le> length (algtbl demo hAlgoSha1 (totp alice) (epoch_msg 60000001))"
    by (simp add: algtbl_def demo_def demo_hmac_def)
  show ?thesis
    using h hotp_truncation_equivalence [OF h, of 6 "algtbl demo hAlgoSha1 (totp alice) (epoch_msg 60000001)"]
    by simp
qed

text \<open>
  Claim C10. With HMAC outputs of 20, 32 and 64 bytes and 6 to 9 digits, every array
  read of \<open>totp_calc\<close> is in bounds, whatever the key, the algorithm and the counter:
  the hash is not empty, so its last byte exists; the offset is at most 15, so
  \<open>off + 3 \<le> 18\<close> lies below the shortest output; \<open>po10[digits]\<close> is one of the table's
  10 entries; and \<open>totp_calc\<close> returns a value, not a fault.
\<close>

theorem totp_calc_index_safety:
  assumes "hmac_output_sizes H" and "6 \<le> d" and "d \<le> 9"
  shows "(let hashs = algtbl H algo key (epoch_msg epoch); off = hotp_offset hashs in
          hashs \<noteq> [] \<and> length hashs - 1 < length hashs \<and>
          off \<le> 15 \<and> off + 3 \<le> 18 \<and> off + 3 < length hashs \<and>
          unat d < length po10 \<and> length po10 = 10) \<and>
         (\<exists>v. totp_calc H key algo d epoch = Inr v)"
proof -
  define hashs where "hashs = algtbl H algo key (epoch_msg epoch)"
  have len: "20 \<le> length hashs"
    unfolding hashs_def using assms(1) by (rule algtbl_length)
  have off: "hotp_offset hashs \<le> 15"
    unfolding hotp_offset_def by (rule offset_le_15)
  have d10: "unat d < 10" using assms(3) by (rule unat_digits)
  have "totp_calc H key algo d epoch = Inr (hotp_value_code hashs mod 10 ^ unat d)"
    unfolding hashs_def using len d10 by (intro totp_calc_in_bounds) (simp_all add: hashs_def)
  then show ?thesis
    using len off d10 by (auto simp add: Let_def hashs_def[symmetric] length_po10)
qed

text \<open>The theorem at the concrete instance, counter 60000001, 6 digits.\<close>

theorem totp_calc_index_safety_witness:
  "hmac_output_sizes demo \<and> (6 :: 8 word) \<le> 6 \<and> (6 :: 8 word) \<le> 9 \<and>
   hotp_offset (algtbl demo hAlgoSha1 (totp alice) (epoch_msg 60000001)) + 3 < 20 \<and>
   (\<exists>v. totp_calc demo (totp alice) hAlgoSha1 6 60000001 = Inr v)"
  using totp_calc_index_safety [OF demo_sizes, of 6 hAlgoSha1 "totp alice" 60000001] demo_sizes
  by (simp add: Let_def)

subsection \<open>The acceptance window\<close>

lemma totp_calc_total:
  assumes "hmac_output_sizes H" and "6 \<le> d" and "d \<le> 9"
  shows "\<exists>v. totp_calc H key algo d epoch = Inr v"
proof -
  have "20 \<le> length (algtbl H algo key (epoch_msg epoch))"
    using assms(1) by (rule algtbl_length)
  then have "19 \<le> length (algtbl H algo key (epoch_msg epoch))" by simp
  then show ?thesis
    using totp_calc_in_bounds [of H algo key epoch d] unat_digits [OF assms(3)] by blast
qed

lemma totp_loop_window:
  assumes total: "\<And>e. \<exists>v. totp_calc H (totp u) (algorithm u) (ucast (digits u)) e = Inr v"
      and hi: "hi < INT_MAX"
  shows "totp_loop H u c ct hi i =
           Inr (\<exists>j\<in>{i..hi}. totp_calc H (totp u) (algorithm u) (ucast (digits u)) (ct + word_of_int j) = Inr c)"
proof (induction "nat (hi + 1 - i)" arbitrary: i)
  case 0
  then have "\<not> i \<le> hi" by simp
  then show ?case by (simp add: totp_loop.simps)
next
  case (Suc n)
  then have le: "i \<le> hi" by simp
  from Suc have n: "n = nat (hi + 1 - (i + 1))" by simp
  obtain v where v: "totp_calc H (totp u) (algorithm u) (ucast (digits u)) (ct + word_of_int i) = Inr v"
    using total by blast
  show ?case
  proof (cases "v = c")
    case True
    with le v show ?thesis
      by (subst totp_loop.simps) auto
  next
    case False
    have ne: "i \<noteq> INT_MAX" using le hi by simp
    have split: "{i..hi} = insert i {i + 1..hi}" using le by auto
    have "totp_loop H u c ct hi i = totp_loop H u c ct hi (i + 1)"
      using le v False ne by (subst totp_loop.simps) simp
    also have "\<dots> = Inr (\<exists>j\<in>{i + 1..hi}. totp_calc H (totp u) (algorithm u) (ucast (digits u)) (ct + word_of_int j) = Inr c)"
      using Suc.hyps(1) [OF n] .
    finally show ?thesis using v False by (simp add: split)
  qed
qed

lemma c_div_nonneg: "0 \<le> a \<Longrightarrow> 0 < b \<Longrightarrow> c_div a b = a div b"
  by (cases "a = 0") (simp_all add: c_div_def)

lemma sint_small: "(W :: 32 word) \<le> 0x7FFFFFFE \<Longrightarrow> sint W = uint W"
proof -
  assume "W \<le> 0x7FFFFFFE"
  then have "uint W \<le> 0x7FFFFFFE" by (simp add: word_le_def)
  then have hi: "uint W < 2 ^ 31" by simp
  have "- (2 ^ 31) \<le> (0 :: int)" by simp
  also have "0 \<le> uint W" by simp
  finally have lo: "- (2 ^ 31) \<le> uint W" .
  have "signed_take_bit 31 (uint W) = uint W"
    using lo hi by (rule signed_take_bit_int_eq_self)
  then show ?thesis by (simp add: sint_uint)
qed

lemma ucast_digits:
  assumes "(6 :: 32 word) \<le> x" and "x \<le> 9"
  shows "6 \<le> (ucast x :: 8 word) \<and> (ucast x :: 8 word) \<le> 9"
proof -
  have "unat x \<le> 9" "6 \<le> unat x" using assms by (simp_all add: word_le_nat_alt)
  moreover have "unat (ucast x :: 8 word) = unat x mod 256"
    by (simp add: unsigned_ucast_eq take_bit_eq_mod)
  ultimately show ?thesis by (simp add: word_le_nat_alt)
qed

text \<open>
  Claim C3, as amended. For a credential with a period above 0 and 6 to 9 digits, a
  clock that is not negative and a window \<open>W\<close> of at most \<open>2^31 - 2\<close>, \<open>totp_valid\<close>
  returns true if and only if some \<open>i\<close> in \<open>[-W, +W]\<close> has \<open>totp_calc\<close> at the counter
  \<open>floor(now / period) + i\<close> (narrowed to 32 bits, as the parameter of \<open>totp_calc\<close> is)
  equal to the submitted code.
\<close>

theorem totp_valid_window:
  assumes "hmac_output_sizes H"
      and "period u \<noteq> 0" and "6 \<le> digits u" and "digits u \<le> 9"
      and "0 \<le> now" and "W \<le> 0x7FFFFFFE"
  shows "totp_valid H u c W now =
           Inr (\<exists>i\<in>{- uint W..uint W}.
                  totp_calc H (totp u) (algorithm u) (ucast (digits u))
                    (word_of_int (now div uint (period u) + i)) = Inr c)"
proof -
  have g: "sint W = uint W" using assms(6) by (rule sint_small)
  have gle: "uint W \<le> 0x7FFFFFFE" using assms(6) by (simp add: word_le_def)
  have p: "0 < uint (period u)"
    using assms(2) by (simp add: word_greater_zero_iff[symmetric] word_less_def)
  have d: "6 \<le> (ucast (digits u) :: 8 word) \<and> (ucast (digits u) :: 8 word) \<le> 9"
    using assms(3,4) by (rule ucast_digits)
  have total: "\<exists>v. totp_calc H (totp u) (algorithm u) (ucast (digits u)) e = Inr v" for e
    using assms(1) d by (intro totp_calc_total) simp_all
  have hi: "uint W < INT_MAX" using gle by (simp add: INT_MAX_def)
  have "INT_MIN < 0" by (simp add: INT_MIN_def)
  then have ne: "uint W \<noteq> INT_MIN"
    using uint_nonnegative [of W] by linarith
  have ct: "(word_of_int (c_div now (uint (period u))) :: 32 word) + word_of_int j =
            word_of_int (now div uint (period u) + j)" for j
    using assms(5) p by (simp add: c_div_nonneg)
  show ?thesis
    unfolding totp_valid_def Let_def g
    using assms(2) ne totp_loop_window [of H u "uint W" c _ "- uint W", OF total hi]
    by (simp add: ct)
qed

lemma demo_totp_0:
  "totp_calc demo (totp alice) (algorithm alice) (ucast (digits alice))
     (word_of_int (1800000000 div uint (period alice) + 0)) = Inr 0"
  by (simp add: totp_calc_def algtbl_def demo_def demo_hmac_def alice_def epoch_msg_def
        c_str_at_def assemble32_def po10_def Let_def of_char_char_of_nat)

text \<open>
  Claim C3 as stated fails for a window of \<open>2^31\<close> or more. With
  \<open>generations = 4294967295\<close> (what a configured \<open>totp_generations = -1\<close> becomes),
  \<open>(signed)generations\<close> is \<open>-1\<close>, the loop starts at \<open>i = 1\<close> with the bound \<open>-1\<close> and
  never runs its body: \<open>totp_valid\<close> returns false although \<open>i = 0\<close> lies in \<open>[-W, +W]\<close>
  and the code at the current counter equals the submitted one.
\<close>

theorem totp_valid_window_counterexample:
  "totp_valid demo alice 0 0xFFFFFFFF 1800000000 = Inr False \<and>
   (0 :: int) \<in> {- uint (0xFFFFFFFF :: 32 word)..uint (0xFFFFFFFF :: 32 word)} \<and>
   totp_calc demo (totp alice) (algorithm alice) (ucast (digits alice))
     (word_of_int (1800000000 div uint (period alice) + 0)) = Inr 0"
proof -
  have "totp_valid demo alice 0 0xFFFFFFFF 1800000000 = Inr False"
    by (simp add: totp_valid_def alice_def INT_MIN_def totp_loop.simps)
  then show ?thesis using demo_totp_0 by simp
qed

text \<open>
  The theorem at the concrete instance with window 1: at time 1800000000 the counter
  is 60000000, whose code 0 is accepted, while the code 2 matches none of the
  counters 59999999, 60000000, 60000001.
\<close>

theorem totp_valid_window_witness:
  "hmac_output_sizes demo \<and> period alice \<noteq> 0 \<and> 6 \<le> digits alice \<and> digits alice \<le> 9 \<and>
   (0 :: int) \<le> 1800000000 \<and> (1 :: 32 word) \<le> 0x7FFFFFFE \<and>
   totp_valid demo alice 0 1 1800000000 = Inr True \<and>
   totp_valid demo alice 2 1 1800000000 = Inr False"
proof -
  have h: "period alice \<noteq> 0" "6 \<le> digits alice" "digits alice \<le> 9" "(0 :: int) \<le> 1800000000"
    "(1 :: 32 word) \<le> 0x7FFFFFFE"
    by (simp_all add: alice_def)
  have s: "{- 1..1 :: int} = {- 1, 0, 1}" by auto
  show ?thesis
    using h demo_sizes
      totp_valid_window [OF demo_sizes h, of 0] totp_valid_window [OF demo_sizes h, of 2]
    by (simp add: s totp_calc_def algtbl_def demo_def demo_hmac_def alice_def epoch_msg_def
          c_str_at_def assemble32_def po10_def Let_def of_char_char_of_nat)
qed

subsection \<open>Searching and cutting strings\<close>

lemma find_first_None: "find_first c s = None \<longleftrightarrow> c \<notin> set s"
  by (induction s) auto

lemma find_first_append:
  "c \<notin> set a \<Longrightarrow> find_first c (a @ c # b) = Some (length a)"
  by (induction a) auto

lemma find_first_Some:
  "find_first c s = Some i \<Longrightarrow> s = take i s @ c # drop (Suc i) s \<and> c \<notin> set (take i s) \<and> i < length s"
proof (induction s arbitrary: i)
  case Nil
  then show ?case by simp
next
  case (Cons x xs)
  show ?case
  proof (cases "x = c")
    case True
    with Cons.prems show ?thesis by simp
  next
    case False
    with Cons.prems obtain j where j: "find_first c xs = Some j" "i = Suc j"
      by auto
    from Cons.IH [OF j(1)] False j(2) show ?thesis by auto
  qed
qed

lemma map_option_add_0: "map_option ((+) (0 :: nat)) x = x"
  by (cases x) simp_all

lemma find_char_0: "find_char s c 0 = find_first c s"
  by (cases s) (simp_all add: find_char_def map_option_add_0)

lemma find_char_less:
  "find_char s c pos = Some p \<Longrightarrow> pos \<le> p \<and> p < length s \<and> s ! p = c"
proof -
  assume a: "find_char s c pos = Some p"
  then have lt: "pos < length s" by (auto simp add: find_char_def split: if_splits)
  from a obtain i where i: "find_first c (drop pos s) = Some i" "p = pos + i"
    using lt by (auto simp add: find_char_def)
  from find_first_Some [OF i(1)] have "i < length (drop pos s)" and d: "drop pos s = take i (drop pos s) @ c # drop (Suc i) (drop pos s)"
    by simp_all
  then have "drop pos s ! i = c"
    by (metis length_take min.absorb2 nat_less_le nth_append_length)
  with \<open>i < length (drop pos s)\<close> i(2) lt show ?thesis by (simp add: add.commute)
qed

lemma find_char_after:
  "c \<notin> set b \<Longrightarrow> find_char (a @ c # b @ c # m) c (length a + 1) = Some (length a + 1 + length b)"
  by (simp add: find_char_def find_first_append)

lemma cookie_fields_compose:
  assumes "CHR '':'' \<notin> set a" and "CHR '':'' \<notin> set b"
  shows "cookie_fields (a @ '':'' @ b @ '':'' @ m) = Some (a, b, m)"
  using assms find_char_after [of "CHR '':''" b a m]
  by (simp add: cookie_fields_def find_char_0 find_first_append substr_def substr_from_def)

lemma cookie_fields_Some:
  assumes "cookie_fields cookie = Some (c1, f2, f3)"
  shows "cookie = c1 @ '':'' @ f2 @ '':'' @ f3 \<and> CHR '':'' \<notin> set c1 \<and> CHR '':'' \<notin> set f2"
proof -
  from assms obtain p1 p2 where p1: "find_char cookie CHR '':'' 0 = Some p1"
    and p2: "find_char cookie CHR '':'' (p1 + 1) = Some p2"
    and f: "c1 = substr cookie 0 p1" "f2 = substr cookie (p1 + 1) (p2 - p1 - 1)" "f3 = substr_from cookie (p2 + 1)"
    by (auto simp add: cookie_fields_def split: option.splits)
  from p1 have q1: "find_first CHR '':'' cookie = Some p1" by (simp add: find_char_0)
  note s1 = find_first_Some [OF q1]
  from p2 obtain i where i: "find_first CHR '':'' (drop (Suc p1) cookie) = Some i" "p2 = Suc p1 + i"
    by (auto simp add: find_char_def split: if_splits)
  note s2 = find_first_Some [OF i(1)]
  have c1: "c1 = take p1 cookie" using f(1) by (simp add: substr_def)
  have f2: "f2 = take i (drop (Suc p1) cookie)" using f(2) i(2) by (simp add: substr_def)
  have f3: "f3 = drop (Suc i) (drop (Suc p1) cookie)" using f(3) i(2) by (simp add: substr_from_def add.commute)
  have "cookie = take p1 cookie @ CHR '':'' # drop (Suc p1) cookie" using s1 by simp
  also have "drop (Suc p1) cookie = f2 @ CHR '':'' # f3" using s2 f2 f3 by simp
  finally have "cookie = c1 @ '':'' @ f2 @ '':'' @ f3" using c1 by simp
  moreover have "CHR '':'' \<notin> set c1" using s1 c1 by simp
  moreover have "CHR '':'' \<notin> set f2" using s2 f2 by simp
  ultimately show ?thesis by simp
qed

lemma check_cookie_fields:
  "check_cookie H secret cookie wcfg now =
     (case cookie_fields cookie of
        None \<Rightarrow> False
      | Some (c1, f2, f3) \<Rightarrow>
          (case users wcfg (hexdecode H f2) of
             None \<Rightarrow> False
           | Some cred \<Rightarrow>
               \<not> cookie_too_old now (word_of_int (atol c1)) (sduration cred) \<and>
               hexdecode H f3 = hmac_sha1 H secret (c1 @ '':'' @ f2)))"
proof (cases "cookie_fields cookie")
  case None
  then show ?thesis
    by (auto simp add: check_cookie_def cookie_fields_def split: option.splits)
next
  case (Some t)
  obtain c1 f2 f3 where t: "t = (c1, f2, f3)" by (cases t)
  from Some t obtain p1 p2 where p1: "find_char cookie CHR '':'' 0 = Some p1"
    and p2: "find_char cookie CHR '':'' (p1 + 1) = Some p2"
    and f: "c1 = substr cookie 0 p1" "f2 = substr cookie (p1 + 1) (p2 - p1 - 1)" "f3 = substr_from cookie (p2 + 1)"
    by (auto simp add: cookie_fields_def split: option.splits)
  from cookie_fields_Some [OF Some [unfolded t]]
  have c: "cookie = c1 @ '':'' @ f2 @ '':'' @ f3" and n1: "CHR '':'' \<notin> set c1" and n2: "CHR '':'' \<notin> set f2"
    by simp_all
  have "p1 = length c1"
    using p1 n1 by (subst (asm) c) (simp add: find_char_0 find_first_append)
  moreover have "p2 = length c1 + 1 + length f2"
    using p2 n2 find_char_after [of "CHR '':''" f2 c1 f3] unfolding \<open>p1 = length c1\<close>
    by (subst (asm) c) simp
  ultimately have pay: "substr cookie 0 p2 = c1 @ '':'' @ f2"
    by (subst c) (simp add: substr_def)
  show ?thesis
    using Some t p1 p2 f pay
    by (auto simp add: check_cookie_def Let_def split: option.splits)
qed

lemma cookie_fields_None:
  "cookie_fields cookie = None \<longleftrightarrow> length (filter (\<lambda>c. c = CHR '':'') cookie) < 2"
proof
  assume n: "cookie_fields cookie = None"
  show "length (filter (\<lambda>c. c = CHR '':'') cookie) < 2"
  proof (cases "find_first CHR '':'' cookie")
    case None
    then have "CHR '':'' \<notin> set cookie" by (simp add: find_first_None)
    then have "filter (\<lambda>c. c = CHR '':'') cookie = []" by (auto simp add: filter_empty_conv)
    then show ?thesis by simp
  next
    case (Some p1)
    note s1 = find_first_Some [OF Some]
    from n Some have "find_char cookie CHR '':'' (p1 + 1) = None"
      by (simp add: cookie_fields_def find_char_0 split: option.splits)
    then have "CHR '':'' \<notin> set (drop (Suc p1) cookie)"
      by (auto simp add: find_char_def find_first_None split: if_splits)
    then have a: "filter (\<lambda>c. c = CHR '':'') (drop (Suc p1) cookie) = []" by (auto simp add: filter_empty_conv)
    have b: "filter (\<lambda>c. c = CHR '':'') (take p1 cookie) = []" using s1 by (auto simp add: filter_empty_conv)
    have "filter (\<lambda>c. c = CHR '':'') cookie = filter (\<lambda>c. c = CHR '':'') (take p1 cookie @ CHR '':'' # drop (Suc p1) cookie)"
      using s1 by simp
    then show ?thesis using a b by simp
  qed
next
  assume l: "length (filter (\<lambda>c. c = CHR '':'') cookie) < 2"
  show "cookie_fields cookie = None"
  proof (rule ccontr)
    assume "cookie_fields cookie \<noteq> None"
    then obtain c1 f2 f3 where "cookie_fields cookie = Some (c1, f2, f3)" by auto
    from cookie_fields_Some [OF this] have "cookie = c1 @ '':'' @ f2 @ '':'' @ f3" by simp
    moreover have "length (filter (\<lambda>c. c = CHR '':'') (c1 @ '':'' @ f2 @ '':'' @ f3)) \<ge> 2"
      by simp
    ultimately have "length (filter (\<lambda>c. c = CHR '':'') cookie) \<ge> 2" by simp
    with l show False by simp
  qed
qed

subsection \<open>Decimal printing and parsing\<close>

lemma of_char_digit_char: "d < 10 \<Longrightarrow> (of_char (digit_char d) :: nat) = 48 + d"
  by (simp add: digit_char_def)

lemma digit_char_props:
  assumes "d < 10"
  shows "isdigit (digit_char d)" and "\<not> isspace (digit_char d)" and "digit_char d \<noteq> CHR '':''"
    and "digit_char d \<noteq> CHR ''-''" and "digit_char d \<noteq> CHR ''+''"
proof -
  note v = of_char_digit_char [OF assms]
  show "isdigit (digit_char d)" using assms by (simp add: isdigit_def v)
  have ne: "digit_char d \<noteq> c" if "(of_char c :: nat) < 48 \<or> 57 < (of_char c :: nat)" for c
    using that v assms by auto
  show "\<not> isspace (digit_char d)" by (auto simp add: isspace_def dest!: ne [THEN notE, rotated])
  show "digit_char d \<noteq> CHR '':''" by (rule ne) simp
  show "digit_char d \<noteq> CHR ''-''" by (rule ne) simp
  show "digit_char d \<noteq> CHR ''+''" by (rule ne) simp
qed

lemma dec_string_digits: "is_digit_string (dec_string n)"
proof (induction n rule: dec_string.induct)
  case (1 n)
  show ?case
  proof (cases "n < 10")
    case True
    then show ?thesis
      by (subst dec_string.simps) (auto simp add: is_digit_string_def intro: exI [of _ n])
  next
    case False
    have "n mod 10 < 10" by simp
    with False 1 show ?thesis
      by (subst dec_string.simps) (auto simp add: is_digit_string_def intro: exI [of _ "n mod 10"])
  qed
qed

lemma digits_value_snoc:
  "list_all (\<lambda>c. \<exists>d<10. c = digit_char d) s \<Longrightarrow> d < 10 \<Longrightarrow>
     digits_value acc (s @ [digit_char d]) = 10 * digits_value acc s + d"
proof (induction s arbitrary: acc)
  case Nil
  then show ?case by (simp add: digit_char_props(1) of_char_digit_char)
next
  case (Cons c s)
  then obtain e where "e < 10" "c = digit_char e" by auto
  with Cons show ?case by (simp add: digit_char_props(1))
qed

lemma digits_value_dec_string: "digits_value 0 (dec_string n) = n"
proof (induction n rule: dec_string.induct)
  case (1 n)
  show ?case
  proof (cases "n < 10")
    case True
    then show ?thesis
      by (subst dec_string.simps) (simp add: digit_char_props(1) of_char_digit_char)
  next
    case False
    have m: "n mod 10 < 10" by simp
    have "list_all (\<lambda>c. \<exists>d<10. c = digit_char d) (dec_string (n div 10))"
      using dec_string_digits [of "n div 10"] by (simp add: is_digit_string_def)
    from digits_value_snoc [OF this m, of 0] 1 False show ?thesis
      by (subst dec_string.simps) simp
  qed
qed

lemma strtol_dec_string: "strtol (dec_string n) = min LONG_MAX (int n)"
proof -
  from dec_string_digits [of n] obtain c r d where s: "dec_string n = c # r" and d: "d < 10" "c = digit_char d"
    by (cases "dec_string n") (auto simp add: is_digit_string_def)
  have "dropWhile isspace (dec_string n) = dec_string n"
    using s d digit_char_props(2) [OF d(1)] by simp
  moreover have "c \<noteq> CHR ''-''" "c \<noteq> CHR ''+''"
    using d digit_char_props(4,5) [OF d(1)] by simp_all
  ultimately show ?thesis
    using s digits_value_dec_string [of n] by (simp add: strtol_def)
qed

lemma atol_to_string: "0 \<le> t \<Longrightarrow> t \<le> LONG_MAX \<Longrightarrow> atol (to_string t) = t"
  by (simp add: atol_def to_string_def strtol_dec_string)

lemma to_string_no_colon: "0 \<le> t \<Longrightarrow> CHR '':'' \<notin> set (to_string t)"
proof -
  assume "0 \<le> t"
  then have "to_string t = dec_string (nat t)" by (simp add: to_string_def)
  moreover have "CHR '':'' \<notin> set (dec_string (nat t))"
  proof
    assume "CHR '':'' \<in> set (dec_string (nat t))"
    with dec_string_digits [of "nat t"] obtain d where "d < 10" "CHR '':'' = digit_char d"
      by (auto simp add: is_digit_string_def list_all_iff)
    with digit_char_props(3) [of d] show False by simp
  qed
  ultimately show ?thesis by simp
qed

lemma no_number_strtol: "no_number s \<Longrightarrow> strtol s = 0"
proof (cases "dropWhile isspace s")
  case Nil
  show ?thesis unfolding strtol_def Let_def Nil by (simp only: list.case)
next
  case (Cons c r)
  assume "no_number s"
  with Cons show ?thesis
    by (cases r) (auto simp add: no_number_def strtol_def LONG_MAX_def LONG_MIN_def split: if_splits)
qed

subsection \<open>Hex encoding\<close>

lemma nat_less_16_cases:
  "k < 16 \<Longrightarrow> k = 0 \<or> k = 1 \<or> k = 2 \<or> k = 3 \<or> k = 4 \<or> k = 5 \<or> k = 6 \<or> k = 7 \<or>
     k = 8 \<or> k = 9 \<or> k = 10 \<or> k = 11 \<or> k = 12 \<or> k = 13 \<or> k = 14 \<or> k = (15 :: nat)"
  by arith

lemma hex_val_hex_digit: "k < 16 \<Longrightarrow> hex_val (hex_digit k) = Some k"
  by (drule nat_less_16_cases) (auto simp add: hex_val_def hex_digit_def)

lemma hex_digit_no_colon: "k < 16 \<Longrightarrow> hex_digit k \<noteq> CHR '':''"
  by (drule nat_less_16_cases) (auto simp add: hex_digit_def)

lemma of_char_less_256: "(of_char c :: nat) < 256"
proof -
  have "(of_char c :: nat) = of_char (char_of (of_char c :: nat))" by simp
  also have "\<dots> = (of_char c :: nat) mod 256" by (simp only: of_char_of)
  finally have "(of_char c :: nat) = of_char c mod 256" .
  then show ?thesis by (metis mod_less_divisor zero_less_numeral)
qed

lemma hexencode_no_colon: "CHR '':'' \<notin> set (hexencode b)"
proof -
  have "hex_digit (of_char c div 16) \<noteq> CHR '':''" "hex_digit (of_char c mod 16) \<noteq> CHR '':''" for c
    using of_char_less_256 [of c] by (simp_all add: hex_digit_no_colon less_mult_imp_div_less)
  then have "CHR '':'' \<noteq> hex_digit (of_char c div 16)" "CHR '':'' \<noteq> hex_digit (of_char c mod 16)" for c
    by (simp_all add: eq_commute [of "CHR '':''"])
  then show ?thesis by (auto simp add: hexencode_def)
qed

lemma hex_decode_hexencode: "hex_decode (hexencode b) = Some b"
proof (induction b)
  case Nil
  then show ?case by (simp add: hexencode_def)
next
  case (Cons c b)
  have h: "hex_val (hex_digit (of_char c div 16)) = Some (of_char c div 16)"
    using of_char_less_256 [of c] by (simp add: hex_val_hex_digit less_mult_imp_div_less)
  have l: "hex_val (hex_digit (of_char c mod 16)) = Some (of_char c mod 16)"
    by (simp add: hex_val_hex_digit)
  have "char_of (16 * ((of_char c :: nat) div 16) + of_char c mod 16) = c" by simp
  with Cons h l show ?case by (simp add: hexencode_def)
qed

lemma demo_hexdecode: "hexdecode_inverts demo"
  by (simp add: hexdecode_inverts_def demo_def hexdecode_ref_def hex_decode_hexencode)

subsection \<open>Issuing and checking cookies\<close>

lemma cookie_too_old_iff:
  assumes "0 \<le> t" and "t \<le> LONG_MAX"
  shows "cookie_too_old now (word_of_int t) d \<longleftrightarrow> t + uint d < now mod 2 ^ 32"
proof -
  have d: "uint d < 2 ^ 32" using uint_lt2p [of d] by simp
  have "uint (ucast d :: 64 word) = uint d"
    using d by (simp add: unsigned_ucast_eq take_bit_int_eq_self)
  moreover have "uint (word_of_int t :: 64 word) = t"
    using assms by (simp add: uint_word_of_int LONG_MAX_def)
  ultimately have r: "uint ((word_of_int t :: 64 word) + ucast d) = t + uint d"
    using assms d by (simp add: uint_word_ariths LONG_MAX_def)
  have "uint (word_of_int now :: 32 word) = now mod 2 ^ 32"
    by (simp add: uint_word_of_int)
  moreover have "uint (ucast (word_of_int now :: 32 word) :: 64 word) = uint (word_of_int now :: 32 word)"
    using uint_lt2p [of "word_of_int now :: 32 word"]
    by (simp add: unsigned_ucast_eq take_bit_int_eq_self)
  ultimately have l: "uint (ucast (word_of_int now :: 32 word) :: 64 word) = now mod 2 ^ 32"
    by simp
  show ?thesis
    unfolding cookie_too_old_def word_less_def l r by simp
qed

lemma check_cookie_created:
  assumes "hexdecode_inverts H" and "users wcfg u = Some cred" and "0 \<le> t0" and "t0 \<le> LONG_MAX"
  shows "check_cookie H secret (create_cookie H secret t0 u) wcfg now
           \<longleftrightarrow> \<not> t0 + uint (sduration cred) < now mod 2 ^ 32"
proof -
  have inv: "hexdecode H (hexencode b) = b" for b
    using assms(1) by (simp add: hexdecode_inverts_def)
  have f: "cookie_fields (create_cookie H secret t0 u) =
             Some (to_string t0, hexencode u, hexencode (hmac_sha1 H secret (to_string t0 @ '':'' @ hexencode u)))"
    unfolding create_cookie_def Let_def
    using cookie_fields_compose [OF to_string_no_colon [OF assms(3)] hexencode_no_colon, of u]
    by simp
  show ?thesis
    unfolding check_cookie_fields f
    using assms(2) by (simp add: inv atol_to_string [OF assms(3,4)] cookie_too_old_iff [OF assms(3,4)])
qed

lemma demo_users: "users demo_web ''alice'' = Some alice" "users demo_web ''bob'' = Some bob"
  by (simp_all add: demo_web_def)

text \<open>
  Claim C1 does not hold of the source. For a user of the host configuration and an
  issue time from 0 to \<open>LONG_MAX\<close>, with a \<open>hexdecode\<close> that inverts \<open>hexencode\<close>,
  \<open>check_cookie\<close> accepts the cookie that \<open>create_cookie\<close> produced exactly when the clock
  narrowed to 32 bits, the \<open>(unsigned)time(0)\<close> of line 128, is at most the issue time
  plus the user's \<open>sduration\<close>. While the clock is below \<open>2^32\<close> that is the round trip
  of the claim; from \<open>2^32\<close> on the narrowed clock starts again at 0 and a cookie past
  its deadline is accepted, against the comment on line 127 and the 64-bit times of
  lines 105 and 122.
\<close>

theorem cookie_round_trip_narrowed_clock:
  assumes "hexdecode_inverts H" and "users wcfg u = Some cred"
      and "0 \<le> t0" and "t0 \<le> LONG_MAX"
  shows "check_cookie H secret (create_cookie H secret t0 u) wcfg now
           \<longleftrightarrow> now mod 2 ^ 32 \<le> t0 + uint (sduration cred)"
proof -
  have "check_cookie H secret (create_cookie H secret t0 u) wcfg now
          \<longleftrightarrow> \<not> t0 + uint (sduration cred) < now mod 2 ^ 32"
    using assms by (rule check_cookie_created)
  then show ?thesis by (simp add: not_less)
qed

text \<open>
  The theorem at the failing input: a cookie issued to \<open>alice\<close> (3600 seconds) at
  4294960000 is accepted at the clock 4294967396, after its deadline 4294963600,
  because the narrowed clock reads 100.
\<close>

theorem cookie_round_trip_narrowed_clock_witness:
  "hexdecode_inverts demo \<and> users demo_web ''alice'' = Some alice \<and>
   (0 :: int) \<le> 4294960000 \<and> 4294960000 \<le> LONG_MAX \<and>
   (4294960000 :: int) + uint (sduration alice) < 4294967396 \<and>
   (4294967396 :: int) mod 2 ^ 32 = 100 \<and>
   check_cookie demo ''s3cr3t'' (create_cookie demo ''s3cr3t'' 4294960000 ''alice'') demo_web 4294967396"
proof -
  have h: "(0 :: int) \<le> 4294960000" "4294960000 \<le> LONG_MAX"
    by (simp_all add: LONG_MAX_def)
  have d: "uint (sduration alice) = 3600" by (simp add: alice_def)
  show ?thesis
    using demo_hexdecode demo_users(1) h
      cookie_round_trip_narrowed_clock [OF demo_hexdecode demo_users(1) h, of "''s3cr3t''" 4294967396]
    by (simp add: d)
qed

text \<open>
  While the clock is below \<open>2^32\<close> the round trip is as intended: the cookie is
  accepted up to the deadline and rejected after it.
\<close>

lemma cookie_round_trip_below_2_32:
  assumes "hexdecode_inverts H" and "users wcfg u = Some cred"
      and "0 \<le> t0" and "t0 \<le> LONG_MAX" and "0 \<le> now"
  shows "(now \<le> t0 + uint (sduration cred) \<longrightarrow>
            check_cookie H secret (create_cookie H secret t0 u) wcfg now) \<and>
         (t0 + uint (sduration cred) < now \<and> now < 2 ^ 32 \<longrightarrow>
            \<not> check_cookie H secret (create_cookie H secret t0 u) wcfg now)"
proof -
  have m: "now mod 2 ^ 32 \<le> now"
    using assms(5) by (simp add: zmod_le_nonneg_dividend)
  have e: "now mod 2 ^ 32 = now" if "now < 2 ^ 32"
    using assms(5) that by simp
  show ?thesis
    unfolding check_cookie_created [OF assms(1-4)]
    using m e by auto
qed

text \<open>
  Claim C6, as amended. \<open>check_cookie\<close> returns false whenever the cookie has fewer than
  two colons; whenever the hex-decoded second field is not a user of the host; and,
  for a parsed timestamp that is not negative and a clock in \<open>[0, 2^32)\<close>, whenever the
  clock exceeds the timestamp plus the user's \<open>sduration\<close>. A first field in which
  \<open>atol\<close> finds no number is read as timestamp 0, and such a cookie is denied by age
  when the clock, in \<open>[0, 2^32)\<close>, exceeds the user's \<open>sduration\<close>.
\<close>

theorem check_cookie_denies:
  "(length (filter (\<lambda>c. c = CHR '':'') cookie) < 2 \<longrightarrow>
      \<not> check_cookie H secret cookie wcfg now) \<and>
   (cookie_fields cookie = Some (c1, f2, f3) \<and> users wcfg (hexdecode H f2) = None \<longrightarrow>
      \<not> check_cookie H secret cookie wcfg now) \<and>
   (cookie_fields cookie = Some (c1, f2, f3) \<and> users wcfg (hexdecode H f2) = Some cred \<and>
    0 \<le> atol c1 \<and> 0 \<le> now \<and> now < 2 ^ 32 \<and> atol c1 + uint (sduration cred) < now \<longrightarrow>
      \<not> check_cookie H secret cookie wcfg now) \<and>
   (cookie_fields cookie = Some (c1, f2, f3) \<and> users wcfg (hexdecode H f2) = Some cred \<and>
    no_number c1 \<longrightarrow>
      atol c1 = 0 \<and>
      (0 \<le> now \<and> now < 2 ^ 32 \<and> uint (sduration cred) < now \<longrightarrow>
         \<not> check_cookie H secret cookie wcfg now))"
proof -
  have long: "atol s \<le> LONG_MAX" for s
    by (auto simp add: atol_def strtol_def Let_def LONG_MAX_def LONG_MIN_def split: list.splits)
  have old: "cookie_too_old now (word_of_int (atol c1)) (sduration cred)"
    if "0 \<le> atol c1" "0 \<le> now" "now < 2 ^ 32" "atol c1 + uint (sduration cred) < now"
    using that by (simp add: cookie_too_old_iff [OF that(1) long])
  have zero: "atol c1 = 0" if "no_number c1"
    using that by (simp add: atol_def no_number_strtol)
  have few: "\<not> check_cookie H secret cookie wcfg now"
    if "length (filter (\<lambda>c. c = CHR '':'') cookie) < 2"
    using that by (simp add: check_cookie_fields cookie_fields_None [symmetric])
  have absent: "\<not> check_cookie H secret cookie wcfg now"
    if "cookie_fields cookie = Some (c1, f2, f3)" "users wcfg (hexdecode H f2) = None"
    using that by (simp add: check_cookie_fields)
  have aged: "\<not> check_cookie H secret cookie wcfg now"
    if "cookie_fields cookie = Some (c1, f2, f3)" "users wcfg (hexdecode H f2) = Some cred"
       "cookie_too_old now (word_of_int (atol c1)) (sduration cred)"
    using that by (simp add: check_cookie_fields)
  show ?thesis
    using few absent aged old zero by (metis add_0 order_refl)
qed

lemma demo_fields:
  "cookie_fields ''1:7a7a:00'' = Some (''1'', ''7a7a'', ''00'')"
  "cookie_fields ''1000:616c696365:00'' = Some (''1000'', ''616c696365'', ''00'')"
  "cookie_fields ''x:616c696365:00'' = Some (''x'', ''616c696365'', ''00'')"
  using cookie_fields_compose [of "''1''" "''7a7a''" "''00''"]
    cookie_fields_compose [of "''1000''" "''616c696365''" "''00''"]
    cookie_fields_compose [of "''x''" "''616c696365''" "''00''"]
  by simp_all

lemma demo_decode:
  "hexdecode demo ''7a7a'' = ''zz''" "hexdecode demo ''616c696365'' = ''alice''"
proof -
  have "hexencode ''zz'' = ''7a7a''" "hexencode ''alice'' = ''616c696365''"
    by (simp_all add: hexencode_def hex_digit_def)
  then show "hexdecode demo ''7a7a'' = ''zz''" "hexdecode demo ''616c696365'' = ''alice''"
    using demo_hexdecode by (metis hexdecode_inverts_def)+
qed

lemma demo_atol: "atol ''1000'' = 1000" "no_number ''x''"
  by (simp_all add: atol_def strtol_def no_number_def isspace_def isdigit_def LONG_MAX_def)

text \<open>
  The theorem at the concrete instance, clock 1800000000: a cookie with no colon; one
  whose user field decodes to \<open>zz\<close>, who is not configured; one for \<open>alice\<close> (3600
  seconds) with timestamp 1000; and one for \<open>alice\<close> whose first field is \<open>x\<close>.
\<close>

theorem check_cookie_denies_witness:
  "length (filter (\<lambda>c. c = CHR '':'') ''abc'') < 2 \<and>
   \<not> check_cookie demo ''s3cr3t'' ''abc'' demo_web 1800000000 \<and>
   cookie_fields ''1:7a7a:00'' = Some (''1'', ''7a7a'', ''00'') \<and>
   users demo_web (hexdecode demo ''7a7a'') = None \<and>
   \<not> check_cookie demo ''s3cr3t'' ''1:7a7a:00'' demo_web 1800000000 \<and>
   cookie_fields ''1000:616c696365:00'' = Some (''1000'', ''616c696365'', ''00'') \<and>
   users demo_web (hexdecode demo ''616c696365'') = Some alice \<and>
   0 \<le> atol ''1000'' \<and> (0 :: int) \<le> 1800000000 \<and> (1800000000 :: int) < 2 ^ 32 \<and>
   atol ''1000'' + uint (sduration alice) < 1800000000 \<and>
   \<not> check_cookie demo ''s3cr3t'' ''1000:616c696365:00'' demo_web 1800000000 \<and>
   cookie_fields ''x:616c696365:00'' = Some (''x'', ''616c696365'', ''00'') \<and>
   no_number ''x'' \<and> atol ''x'' = 0 \<and> uint (sduration alice) < 1800000000 \<and>
   \<not> check_cookie demo ''s3cr3t'' ''x:616c696365:00'' demo_web 1800000000"
proof -
  have u: "users demo_web ''zz'' = None" by (simp add: demo_web_def)
  have d: "uint (sduration alice) = 3600" by (simp add: alice_def)
  show ?thesis
    using check_cookie_denies [where cookie = "''abc''" and H = demo and secret = "''s3cr3t''"
        and wcfg = demo_web and now = 1800000000]
      check_cookie_denies [where cookie = "''1:7a7a:00''" and ?c1.0 = "''1''" and ?f2.0 = "''7a7a''"
        and ?f3.0 = "''00''" and H = demo and secret = "''s3cr3t''" and wcfg = demo_web
        and now = 1800000000]
      check_cookie_denies [where cookie = "''1000:616c696365:00''" and ?c1.0 = "''1000''"
        and ?f2.0 = "''616c696365''" and ?f3.0 = "''00''" and H = demo and secret = "''s3cr3t''"
        and wcfg = demo_web and cred = alice and now = 1800000000]
      check_cookie_denies [where cookie = "''x:616c696365:00''" and ?c1.0 = "''x''"
        and ?f2.0 = "''616c696365''" and ?f3.0 = "''00''" and H = demo and secret = "''s3cr3t''"
        and wcfg = demo_web and cred = alice and now = 1800000000]
    by (simp add: demo_fields demo_decode demo_atol demo_users u d)
qed

text \<open>
  Claim C6 as stated fails in two ways. A cookie for \<open>bob\<close>, whose \<open>sduration\<close> is
  4000000000, with the first field \<open>x\<close> and the MAC of its own payload is read as
  timestamp 0 and is not denied by age at the clock 1800000000: it is accepted. And a
  cookie for \<open>alice\<close> (3600 seconds) with timestamp 1000 is accepted at the clock
  4294969296, which exceeds 1000 + 3600 but reads 2000 once narrowed to 32 bits.
\<close>

theorem check_cookie_denies_counterexample:
  "no_number ''x'' \<and>
   check_cookie demo ''s3cr3t''
     (''x:'' @ hexencode ''bob'' @ '':'' @ hexencode (hmac_sha1 demo ''s3cr3t'' (''x:'' @ hexencode ''bob'')))
     demo_web 1800000000 \<and>
   atol (to_string 1000) + uint (sduration alice) < 4294969296 \<and>
   check_cookie demo ''s3cr3t'' (create_cookie demo ''s3cr3t'' 1000 ''alice'') demo_web 4294969296"
proof -
  have inv: "hexdecode demo (hexencode b) = b" for b
    using demo_hexdecode by (simp add: hexdecode_inverts_def)
  have f: "cookie_fields (''x'' @ '':'' @ hexencode ''bob'' @ '':'' @
             hexencode (hmac_sha1 demo ''s3cr3t'' (''x:'' @ hexencode ''bob'')))
           = Some (''x'', hexencode ''bob'', hexencode (hmac_sha1 demo ''s3cr3t'' (''x:'' @ hexencode ''bob'')))"
    by (rule cookie_fields_compose) (simp_all add: hexencode_no_colon)
  have z: "atol ''x'' = 0" using demo_atol(2) by (simp add: atol_def no_number_strtol)
  have a: "check_cookie demo ''s3cr3t''
     (''x:'' @ hexencode ''bob'' @ '':'' @ hexencode (hmac_sha1 demo ''s3cr3t'' (''x:'' @ hexencode ''bob'')))
     demo_web 1800000000"
    using f by (simp add: check_cookie_fields inv demo_users z cookie_too_old_def bob_def)
  have b: "check_cookie demo ''s3cr3t'' (create_cookie demo ''s3cr3t'' 1000 ''alice'') demo_web 4294969296"
    by (subst check_cookie_created [OF demo_hexdecode demo_users(1)])
       (simp_all add: LONG_MAX_def alice_def)
  have c: "atol (to_string 1000) = 1000"
    by (rule atol_to_string) (simp_all add: LONG_MAX_def)
  show ?thesis using a b demo_atol(2) by (simp add: c alice_def)
qed

subsection \<open>The authentication endpoint\<close>

lemmas reader_defs = resp_header_def CRLF_def CR_def LF_def

lemma read_200:
  "resp_header ''Status'' (''Status: 200'' @ CRLF @ ''Content-Type: text/plain'' @ CRLF @
      ''Content-Length: 24'' @ CRLF @ CRLF @ ''Authentication Succeeded'') = Some ''200''"
  "resp_body (''Status: 200'' @ CRLF @ ''Content-Type: text/plain'' @ CRLF @
      ''Content-Length: 24'' @ CRLF @ CRLF @ ''Authentication Succeeded'') = Some ''Authentication Succeeded''"
  by (simp_all add: reader_defs)

lemma read_401:
  "resp_header ''Status'' (''Status: 401'' @ CRLF @ ''Content-Type: text/plain'' @ CRLF @
      ''Content-Length: 21'' @ CRLF @ CRLF @ ''Authentication Denied'') = Some ''401''"
  "resp_body (''Status: 401'' @ CRLF @ ''Content-Type: text/plain'' @ CRLF @
      ''Content-Length: 21'' @ CRLF @ CRLF @ ''Authentication Denied'') = Some ''Authentication Denied''"
  by (simp_all add: reader_defs)

lemma read_429:
  "resp_header ''Status'' (''Status: 429'' @ CRLF @ ''Content-Type: text/plain'' @ CRLF @
      ''Content-Length: 34'' @ CRLF @ CRLF @ ''Too many requests, request blocked'') = Some ''429''"
  "resp_body (''Status: 429'' @ CRLF @ ''Content-Type: text/plain'' @ CRLF @
      ''Content-Length: 34'' @ CRLF @ CRLF @ ''Too many requests, request blocked'')
     = Some ''Too many requests, request blocked''"
  by (simp_all add: reader_defs)

lemma read_404:
  "resp_header ''Status'' (''Status: 404'' @ CRLF @ ''Content-Type: text/plain'' @ CRLF @
      ''Content-Length: 48'' @ CRLF @ ''Not found, valid endpoints: /auth /login /logout'' @ CRLF @ CRLF)
     = Some ''404''"
  "resp_header ''Content-Type'' (''Status: 404'' @ CRLF @ ''Content-Type: text/plain'' @ CRLF @
      ''Content-Length: 48'' @ CRLF @ ''Not found, valid endpoints: /auth /login /logout'' @ CRLF @ CRLF)
     = Some ''text/plain''"
  "resp_header ''Content-Length'' (''Status: 404'' @ CRLF @ ''Content-Type: text/plain'' @ CRLF @
      ''Content-Length: 48'' @ CRLF @ ''Not found, valid endpoints: /auth /login /logout'' @ CRLF @ CRLF)
     = Some ''48''"
  "resp_body (''Status: 404'' @ CRLF @ ''Content-Type: text/plain'' @ CRLF @
      ''Content-Length: 48'' @ CRLF @ ''Not found, valid endpoints: /auth /login /logout'' @ CRLF @ CRLF)
     = Some []"
  "split_crlf (resp_head (''Status: 404'' @ CRLF @ ''Content-Type: text/plain'' @ CRLF @
      ''Content-Length: 48'' @ CRLF @ ''Not found, valid endpoints: /auth /login /logout'' @ CRLF @ CRLF))
     = [''Status: 404'', ''Content-Type: text/plain'', ''Content-Length: 48'',
        ''Not found, valid endpoints: /auth /login /logout'']"
  by (simp_all add: reader_defs)


lemma uri_distinct:
  "''/auth'' \<noteq> ''/login''" "''/login'' \<noteq> ''/auth''" "''/logout'' \<noteq> ''/auth''" "''/logout'' \<noteq> ''/login''"
  by simp_all

text \<open>
  Claim C4, as amended. For a request whose URI is \<open>/auth\<close>, \<open>process_req\<close> returns status 200 with
  the body \<open>Authentication Succeeded\<close> if \<open>check_cookie\<close> accepts the value of the cookie
  \<open>authentication-token\<close>, and status 401 with the body \<open>Authentication Denied\<close>
  otherwise; a request without that cookie, or with a value that has fewer than two
  colons, gets 401.
\<close>

theorem auth_dispatch:
  assumes "uri req = ''/auth''"
  shows "\<exists>r srv'. process_req H t_check t_issue srv req wcfg = Inr (r, srv') \<and>
           (if check_cookie H (cookie_secret srv)
                 (lookup_default (cookies req) ''authentication-token'') wcfg t_check
            then resp_header ''Status'' r = Some ''200'' \<and>
                 resp_body r = Some ''Authentication Succeeded''
            else resp_header ''Status'' r = Some ''401'' \<and>
                 resp_body r = Some ''Authentication Denied'') \<and>
           (cookies req ''authentication-token'' = None \<or>
            length (filter (\<lambda>c. c = CHR '':'')
                      (lookup_default (cookies req) ''authentication-token'')) < 2 \<longrightarrow>
              resp_header ''Status'' r = Some ''401'' \<and> resp_body r = Some ''Authentication Denied'')"
proof -
  let ?c = "lookup_default (cookies req) ''authentication-token''"
  have none: "\<not> check_cookie H (cookie_secret srv) ?c wcfg t_check"
    if "cookies req ''authentication-token'' = None \<or> length (filter (\<lambda>c. c = CHR '':'') ?c) < 2"
  proof -
    from that have "length (filter (\<lambda>c. c = CHR '':'') ?c) < 2"
      by (auto simp add: lookup_default_def)
    then show ?thesis by (simp add: check_cookie_fields cookie_fields_None [symmetric])
  qed
  have pr: "process_req H t_check t_issue srv req wcfg =
      (if check_cookie H (cookie_secret srv) ?c wcfg t_check
       then Inr (''Status: 200'' @ CRLF @ ''Content-Type: text/plain'' @ CRLF @
                 ''Content-Length: 24'' @ CRLF @ CRLF @ ''Authentication Succeeded'',
                 log_line ''Requested authentication succeeded'' srv)
       else Inr (''Status: 401'' @ CRLF @ ''Content-Type: text/plain'' @ CRLF @
                 ''Content-Length: 21'' @ CRLF @ CRLF @ ''Authentication Denied'',
                 log_line ''Requested authentication denied'' srv))"
    unfolding process_req_def Let_def by (simp only: assms if_True simp_thms)
  show ?thesis
  proof (cases "check_cookie H (cookie_secret srv) ?c wcfg t_check")
    case True
    with none have n: "\<not> (cookies req ''authentication-token'' = None \<or>
        length (filter (\<lambda>c. c = CHR '':'') ?c) < 2)" by blast
    show ?thesis
    proof (intro exI conjI)
      show "process_req H t_check t_issue srv req wcfg =
          Inr (''Status: 200'' @ CRLF @ ''Content-Type: text/plain'' @ CRLF @
                 ''Content-Length: 24'' @ CRLF @ CRLF @ ''Authentication Succeeded'',
               log_line ''Requested authentication succeeded'' srv)"
        by (simp only: pr True if_True)
    qed (simp_all only: True n if_True read_200 simp_thms)
  next
    case False
    show ?thesis
    proof (intro exI conjI)
      show "process_req H t_check t_issue srv req wcfg =
          Inr (''Status: 401'' @ CRLF @ ''Content-Type: text/plain'' @ CRLF @
                 ''Content-Length: 21'' @ CRLF @ CRLF @ ''Authentication Denied'',
               log_line ''Requested authentication denied'' srv)"
        by (simp only: pr False if_False)
    qed (simp_all only: False if_False read_401 simp_thms)
  qed
qed

lemma demo_authed_cookie:
  "check_cookie demo (cookie_secret demo_srv)
     (lookup_default (cookies demo_req_authed) ''authentication-token'') demo_web 1800000100"
proof -
  have c: "lookup_default (cookies demo_req_authed) ''authentication-token'' =
             create_cookie demo ''s3cr3t'' 1800000000 ''alice''"
    by (simp add: demo_req_authed_def lookup_default_def)
  have s: "cookie_secret demo_srv = ''s3cr3t''" by (simp add: demo_srv_def)
  show ?thesis
    unfolding c s
    by (subst check_cookie_created [OF demo_hexdecode demo_users(1)])
       (simp_all add: LONG_MAX_def alice_def)
qed

text \<open>
  The theorem at the concrete instance, clock 1800000100: a request without cookies is
  denied, and one that carries the cookie issued to \<open>alice\<close> at 1800000000 is let in.
\<close>

theorem auth_dispatch_witness:
  "uri demo_req = ''/auth'' \<and> cookies demo_req ''authentication-token'' = None \<and>
   (\<exists>r srv'. process_req demo 1800000100 1800000100 demo_srv demo_req demo_web = Inr (r, srv') \<and>
      resp_header ''Status'' r = Some ''401'' \<and> resp_body r = Some ''Authentication Denied'') \<and>
   uri demo_req_authed = ''/auth'' \<and>
   check_cookie demo (cookie_secret demo_srv)
     (lookup_default (cookies demo_req_authed) ''authentication-token'') demo_web 1800000100 \<and>
   (\<exists>r srv'. process_req demo 1800000100 1800000100 demo_srv demo_req_authed demo_web = Inr (r, srv') \<and>
      resp_header ''Status'' r = Some ''200'' \<and> resp_body r = Some ''Authentication Succeeded'')"
proof -
  have u: "uri demo_req = ''/auth''" "uri demo_req_authed = ''/auth''"
    by (simp_all add: demo_req_def demo_req_authed_def)
  have n: "cookies demo_req ''authentication-token'' = None"
    by (simp add: demo_req_def)
  from auth_dispatch [OF u(1), of demo 1800000100 1800000100 demo_srv demo_web] n
  have a: "\<exists>r srv'. process_req demo 1800000100 1800000100 demo_srv demo_req demo_web = Inr (r, srv') \<and>
      resp_header ''Status'' r = Some ''401'' \<and> resp_body r = Some ''Authentication Denied''"
    by (elim exE conjE) (intro exI conjI, assumption, simp_all)
  from auth_dispatch [OF u(2), of demo 1800000100 1800000100 demo_srv demo_web] demo_authed_cookie
  have b: "\<exists>r srv'. process_req demo 1800000100 1800000100 demo_srv demo_req_authed demo_web = Inr (r, srv') \<and>
      resp_header ''Status'' r = Some ''200'' \<and> resp_body r = Some ''Authentication Succeeded''"
    by (elim exE conjE) (intro exI conjI, assumption, simp_all)
  show ?thesis using u n a b demo_authed_cookie by (simp only: simp_thms)
qed

lemma process_req_auth:
  assumes "uri req = ''/auth''"
  shows "process_req H t_check t_issue srv req wcfg =
      (if check_cookie H (cookie_secret srv)
            (lookup_default (cookies req) ''authentication-token'') wcfg t_check
       then Inr (''Status: 200'' @ CRLF @ ''Content-Type: text/plain'' @ CRLF @
                 ''Content-Length: 24'' @ CRLF @ CRLF @ ''Authentication Succeeded'',
                 log_line ''Requested authentication succeeded'' srv)
       else Inr (''Status: 401'' @ CRLF @ ''Content-Type: text/plain'' @ CRLF @
                 ''Content-Length: 21'' @ CRLF @ CRLF @ ''Authentication Denied'',
                 log_line ''Requested authentication denied'' srv))"
  unfolding process_req_def Let_def by (simp only: assms if_True simp_thms)

lemma demo_junk_atol: "atol ''1800000000junk'' = 1800000000"
  by (simp add: atol_def strtol_def isspace_def isdigit_def LONG_MAX_def)

lemma demo_junk_not_decimal: "\<not> is_digit_string ''1800000000junk''"
proof
  assume "is_digit_string ''1800000000junk''"
  then obtain d where "d < 10" "CHR ''j'' = digit_char d"
    by (auto simp add: is_digit_string_def)
  then have "isdigit (CHR ''j'')"
    using digit_char_props(1) [of d] by simp
  then show False by (simp add: isdigit_def)
qed

lemma demo_junk_cookie:
  "cookie_fields (lookup_default (cookies demo_req_junk) ''authentication-token'') =
     Some (''1800000000junk'', hexencode ''alice'',
           hexencode (hmac_sha1 demo ''s3cr3t'' (''1800000000junk'' @ '':'' @ hexencode ''alice'')))"
  "check_cookie demo (cookie_secret demo_srv)
     (lookup_default (cookies demo_req_junk) ''authentication-token'') demo_web 1800000100"
proof -
  let ?m = "hexencode (hmac_sha1 demo ''s3cr3t'' (''1800000000junk'' @ '':'' @ hexencode ''alice''))"
  have c: "lookup_default (cookies demo_req_junk) ''authentication-token'' =
             ''1800000000junk'' @ '':'' @ hexencode ''alice'' @ '':'' @ ?m"
    by (simp add: demo_req_junk_def lookup_default_def)
  have f: "cookie_fields (''1800000000junk'' @ '':'' @ hexencode ''alice'' @ '':'' @ ?m) =
             Some (''1800000000junk'', hexencode ''alice'', ?m)"
    by (rule cookie_fields_compose) (simp_all add: hexencode_no_colon)
  have inv: "hexdecode demo (hexencode b) = b" for b
    using demo_hexdecode by (simp add: hexdecode_inverts_def)
  have s: "cookie_secret demo_srv = ''s3cr3t''" by (simp add: demo_srv_def)
  show "cookie_fields (lookup_default (cookies demo_req_junk) ''authentication-token'') =
     Some (''1800000000junk'', hexencode ''alice'', ?m)"
    unfolding c by (rule f)
  show "check_cookie demo (cookie_secret demo_srv)
     (lookup_default (cookies demo_req_junk) ''authentication-token'') demo_web 1800000100"
    unfolding c s check_cookie_fields f
    by (simp add: inv demo_users demo_junk_atol cookie_too_old_def alice_def)
qed

text \<open>
  Claim C4 as stated fails for a malformed cookie. A cookie whose first field is
  \<open>1800000000junk\<close>, which is no decimal integer, with the user field of \<open>alice\<close> and
  the MAC of these two fields, is read by \<open>atol\<close> as timestamp 1800000000 and accepted
  at the clock 1800000100: the request gets status 200, not 401.
\<close>

theorem auth_dispatch_counterexample:
  "uri demo_req_junk = ''/auth'' \<and>
   cookie_fields (lookup_default (cookies demo_req_junk) ''authentication-token'') =
     Some (''1800000000junk'', hexencode ''alice'',
           hexencode (hmac_sha1 demo ''s3cr3t'' (''1800000000junk'' @ '':'' @ hexencode ''alice''))) \<and>
   \<not> is_digit_string ''1800000000junk'' \<and>
   atol ''1800000000junk'' = 1800000000 \<and>
   (\<exists>r srv'. process_req demo 1800000100 1800000100 demo_srv demo_req_junk demo_web = Inr (r, srv') \<and>
      resp_header ''Status'' r = Some ''200'' \<and> resp_body r = Some ''Authentication Succeeded'')"
proof -
  have u: "uri demo_req_junk = ''/auth''"
    by (simp add: demo_req_junk_def demo_req_def)
  have p: "process_req demo 1800000100 1800000100 demo_srv demo_req_junk demo_web =
      Inr (''Status: 200'' @ CRLF @ ''Content-Type: text/plain'' @ CRLF @
           ''Content-Length: 24'' @ CRLF @ CRLF @ ''Authentication Succeeded'',
           log_line ''Requested authentication succeeded'' demo_srv)"
    by (simp only: process_req_auth [OF u] demo_junk_cookie(2) if_True)
  have e: "\<exists>r srv'. process_req demo 1800000100 1800000100 demo_srv demo_req_junk demo_web = Inr (r, srv') \<and>
      resp_header ''Status'' r = Some ''200'' \<and> resp_body r = Some ''Authentication Succeeded''"
    using p read_200 by (intro exI conjI)
  show ?thesis
    using u demo_junk_cookie(1) demo_junk_not_decimal demo_junk_atol e by (intro conjI)
qed

subsection \<open>The login endpoint\<close>

lemma process_req_login:
  assumes "uri req = ''/login''"
  shows "process_req H t_check t_issue srv req wcfg =
     (case rl_check H (rl srv) (ip64 req) of
        (blocked, rl1) \<Rightarrow>
          if blocked then
            Inr (''Status: 429'' @ CRLF @ ''Content-Type: text/plain'' @ CRLF @
                 ''Content-Length: 34'' @ CRLF @ CRLF @ ''Too many requests, request blocked'',
                 log_line (''Rate limit hit for ip id '' @ to_string (uint (ip64 req)))
                   (srv\<lparr>rl := rl1\<rparr>))
          else
            login_form H t_check t_issue (srv\<lparr>rl := rl_consume H rl1 (ip64 req)\<rparr>) req wcfg
              (follow_page req))"
  unfolding process_req_def Let_def
  by (simp only: assms uri_distinct if_True if_False simp_thms)

lemma login_form_keeps_limiter:
  assumes "login_form H t_check t_issue srv req wcfg rpage = Inr (r, srv')"
  shows "rl srv' = rl srv"
  using assms
  by (auto simp add: login_form_def Let_def log_line_def split: if_splits sum.splits bool.splits)

text \<open>
  Claim C7. For a request whose URI is \<open>/login\<close>: if the rate limiter's \<open>check\<close> reports
  the key \<open>ip64\<close> blocked, \<open>process_req\<close> returns status 429 with the body
  \<open>Too many requests, request blocked\<close>, the limiter is left as \<open>check\<close> left it, and
  the result is the same whatever the method and the posted variables are. Otherwise
  \<open>consume\<close> is applied once to that key and the request goes on to the login form,
  which does not touch the limiter again.
\<close>

theorem login_rate_limit:
  assumes "uri req = ''/login''"
  shows "(fst (rl_check H (rl srv) (ip64 req)) \<longrightarrow>
            (\<exists>r srv'. process_req H t_check t_issue srv req wcfg = Inr (r, srv') \<and>
               resp_header ''Status'' r = Some ''429'' \<and>
               resp_body r = Some ''Too many requests, request blocked'' \<and>
               rl srv' = snd (rl_check H (rl srv) (ip64 req)) \<and>
               (\<forall>m pv. process_req H t_check t_issue srv (req\<lparr>req_method := m, postvars := pv\<rparr>) wcfg
                          = Inr (r, srv')))) \<and>
         (\<not> fst (rl_check H (rl srv) (ip64 req)) \<longrightarrow>
            process_req H t_check t_issue srv req wcfg =
              login_form H t_check t_issue
                (srv\<lparr>rl := rl_consume H (snd (rl_check H (rl srv) (ip64 req))) (ip64 req)\<rparr>)
                req wcfg (follow_page req) \<and>
            (\<forall>r srv'. process_req H t_check t_issue srv req wcfg = Inr (r, srv') \<longrightarrow>
               rl srv' = rl_consume H (snd (rl_check H (rl srv) (ip64 req))) (ip64 req)))"
proof (cases "rl_check H (rl srv) (ip64 req)")
  case (Pair blocked rl1)
  show ?thesis
  proof (cases blocked)
    case True
    let ?r = "''Status: 429'' @ CRLF @ ''Content-Type: text/plain'' @ CRLF @
                 ''Content-Length: 34'' @ CRLF @ CRLF @ ''Too many requests, request blocked''"
    let ?s = "log_line (''Rate limit hit for ip id '' @ to_string (uint (ip64 req))) (srv\<lparr>rl := rl1\<rparr>)"
    have p: "process_req H t_check t_issue srv req wcfg = Inr (?r, ?s)"
      by (simp only: process_req_login [OF assms] Pair True prod.case if_True)
    have u: "uri (req\<lparr>req_method := m, postvars := pv\<rparr>) = ''/login''" for m pv
      using assms by simp
    have q: "process_req H t_check t_issue srv (req\<lparr>req_method := m, postvars := pv\<rparr>) wcfg = Inr (?r, ?s)" for m pv
      unfolding process_req_login [OF u] using Pair True by simp
    have l: "rl ?s = rl1" by (simp add: log_line_def)
    have "\<exists>r srv'. process_req H t_check t_issue srv req wcfg = Inr (r, srv') \<and>
               resp_header ''Status'' r = Some ''429'' \<and>
               resp_body r = Some ''Too many requests, request blocked'' \<and>
               rl srv' = rl1 \<and>
               (\<forall>m pv. process_req H t_check t_issue srv (req\<lparr>req_method := m, postvars := pv\<rparr>) wcfg
                          = Inr (r, srv'))"
      using p q l read_429 by (intro exI conjI allI)
    then show ?thesis using Pair True by (simp only: fst_conv snd_conv simp_thms)
  next
    case False
    have p: "process_req H t_check t_issue srv req wcfg =
              login_form H t_check t_issue (srv\<lparr>rl := rl_consume H rl1 (ip64 req)\<rparr>) req wcfg (follow_page req)"
      by (simp only: process_req_login [OF assms] Pair False prod.case if_False)
    have "rl srv' = rl_consume H rl1 (ip64 req)"
      if "process_req H t_check t_issue srv req wcfg = Inr (r, srv')" for r srv'
      using login_form_keeps_limiter [OF that [unfolded p]] by simp
    with p show ?thesis using Pair False by (simp only: fst_conv snd_conv simp_thms) blast
  qed
qed

lemma demo_limiter:
  "rl_check demo (\<lambda>k. 0) 7 = (True, (\<lambda>k. 0))"
  "rl_check demo (\<lambda>k. 2) 7 = (False, (\<lambda>k. 2))"
  "rl_consume demo (\<lambda>k. 2) 7 = (\<lambda>k. 2)(7 := 1)"
  by (simp_all add: demo_def)

text \<open>
  The theorem at the concrete instance: with no token left for the key 7 the login
  request is blocked; with 2 tokens it reaches the login form and 1 is left.
\<close>

theorem login_rate_limit_witness:
  "uri (demo_login ''pw'') = ''/login'' \<and>
   fst (rl_check demo (rl (demo_srv\<lparr>rl := (\<lambda>k. 0)\<rparr>)) (ip64 (demo_login ''pw''))) \<and>
   (\<exists>r srv'. process_req demo 1800000000 1800000000 (demo_srv\<lparr>rl := (\<lambda>k. 0)\<rparr>) (demo_login ''pw'') demo_web
        = Inr (r, srv') \<and>
      resp_header ''Status'' r = Some ''429'' \<and>
      resp_body r = Some ''Too many requests, request blocked'' \<and> rl srv' 7 = 0) \<and>
   \<not> fst (rl_check demo (rl demo_srv) (ip64 (demo_login ''pw''))) \<and>
   process_req demo 1800000000 1800000000 demo_srv (demo_login ''pw'') demo_web =
     login_form demo 1800000000 1800000000 (demo_srv\<lparr>rl := (\<lambda>k. 2)(7 := 1)\<rparr>) (demo_login ''pw'')
       demo_web (follow_page (demo_login ''pw''))"
proof -
  have u: "uri (demo_login ''pw'') = ''/login''" and k: "ip64 (demo_login ''pw'') = 7"
    by (simp_all add: demo_login_def)
  have s: "rl (demo_srv\<lparr>rl := (\<lambda>k. 0)\<rparr>) = (\<lambda>k. 0)" "rl demo_srv = (\<lambda>k. 2)"
    by (simp_all add: demo_srv_def)
  from login_rate_limit [OF u, of demo "demo_srv\<lparr>rl := (\<lambda>k. 0)\<rparr>" 1800000000 1800000000 demo_web]
  have a: "\<exists>r srv'. process_req demo 1800000000 1800000000 (demo_srv\<lparr>rl := (\<lambda>k. 0)\<rparr>) (demo_login ''pw'') demo_web
        = Inr (r, srv') \<and>
      resp_header ''Status'' r = Some ''429'' \<and>
      resp_body r = Some ''Too many requests, request blocked'' \<and> rl srv' 7 = 0"
    unfolding s k demo_limiter
    apply (simp only: fst_conv snd_conv simp_thms)
    apply (elim exE conjE)
    apply (intro exI conjI)
       apply assumption+
    apply simp
    done
  from login_rate_limit [OF u, of demo demo_srv 1800000000 1800000000 demo_web]
  have b: "process_req demo 1800000000 1800000000 demo_srv (demo_login ''pw'') demo_web =
     login_form demo 1800000000 1800000000 (demo_srv\<lparr>rl := (\<lambda>k. 2)(7 := 1)\<rparr>) (demo_login ''pw'')
       demo_web (follow_page (demo_login ''pw''))"
    unfolding s k demo_limiter by (simp only: fst_conv snd_conv simp_thms demo_limiter)
  show ?thesis
    using u a b unfolding s k demo_limiter by (simp only: fst_conv snd_conv simp_thms)
qed

subsection \<open>Unknown URIs\<close>

text \<open>
  Claim C8 does not hold of the source. For a URI other than \<open>/auth\<close>, \<open>/login\<close> and
  \<open>/logout\<close> the response has status 404, a \<open>Content-Type\<close> and \<open>Content-Length: 48\<close>,
  but only one CR LF follows the \<open>Content-Length\<close> line: the text
  \<open>Not found, valid endpoints: /auth /login /logout\<close> (48 characters) stands before
  the blank line, as one more line of the header block, and the body after the blank
  line is empty. The other fixed responses of \<open>process_req\<close> put the blank line before
  their text.
\<close>

theorem not_found_response:
  assumes "uri req \<noteq> ''/auth''" and "uri req \<noteq> ''/login''" and "uri req \<noteq> ''/logout''"
  shows "\<exists>r srv'. process_req H t_check t_issue srv req wcfg = Inr (r, srv') \<and>
           resp_header ''Status'' r = Some ''404'' \<and>
           resp_header ''Content-Type'' r = Some ''text/plain'' \<and>
           resp_header ''Content-Length'' r = Some ''48'' \<and>
           resp_body r = Some [] \<and>
           split_crlf (resp_head r) =
             [''Status: 404'', ''Content-Type: text/plain'', ''Content-Length: 48'',
              ''Not found, valid endpoints: /auth /login /logout''] \<and>
           length ''Not found, valid endpoints: /auth /login /logout'' = 48"
proof -
  have p: "process_req H t_check t_issue srv req wcfg =
     Inr (''Status: 404'' @ CRLF @ ''Content-Type: text/plain'' @ CRLF @
          ''Content-Length: 48'' @ CRLF @
          ''Not found, valid endpoints: /auth /login /logout'' @ CRLF @ CRLF,
          log_line (''Unknown request for URL: '' @ uri req) srv)"
    unfolding process_req_def Let_def by (simp only: assms if_False)
  have n: "length ''Not found, valid endpoints: /auth /login /logout'' = 48" by simp
  show ?thesis
    using p read_404 n by (intro exI conjI)
qed

text \<open>The theorem at the concrete instance, for the URI \<open>/nope\<close>.\<close>

theorem not_found_response_witness:
  "uri (demo_req\<lparr>uri := ''/nope''\<rparr>) \<noteq> ''/auth'' \<and> uri (demo_req\<lparr>uri := ''/nope''\<rparr>) \<noteq> ''/login'' \<and>
   uri (demo_req\<lparr>uri := ''/nope''\<rparr>) \<noteq> ''/logout'' \<and>
   (\<exists>r srv'. process_req demo 0 0 demo_srv (demo_req\<lparr>uri := ''/nope''\<rparr>) demo_web = Inr (r, srv') \<and>
      resp_header ''Content-Length'' r = Some ''48'' \<and> resp_body r = Some [])"
proof -
  have u: "uri (demo_req\<lparr>uri := ''/nope''\<rparr>) \<noteq> ''/auth''" "uri (demo_req\<lparr>uri := ''/nope''\<rparr>) \<noteq> ''/login''"
    "uri (demo_req\<lparr>uri := ''/nope''\<rparr>) \<noteq> ''/logout''"
    by simp_all
  from not_found_response [OF u, of demo 0 0 demo_srv demo_web]
  have "\<exists>r srv'. process_req demo 0 0 demo_srv (demo_req\<lparr>uri := ''/nope''\<rparr>) demo_web = Inr (r, srv') \<and>
      resp_header ''Content-Length'' r = Some ''48'' \<and> resp_body r = Some []"
    by (elim exE conjE) (intro exI conjI, assumption+)
  with u show ?thesis by (simp only: simp_thms)
qed

subsection \<open>Posting the login form\<close>












subsection \<open>The key of a client address\<close>

lemma ip64_bytes:
  "ucast (drop_bit 40 (ip64_of_in6 a)) = a ! 0"
  "ucast (drop_bit 32 (ip64_of_in6 a)) = a ! 1"
  "ucast (drop_bit 24 (ip64_of_in6 a)) = a ! 2"
  "ucast (drop_bit 16 (ip64_of_in6 a)) = a ! 3"
  "ucast (drop_bit 8 (ip64_of_in6 a)) = a ! 4"
  "ucast (ip64_of_in6 a) = a ! 5"
  unfolding ip64_of_in6_def
  by (rule bit_word_eqI; auto simp add: bit_simps dest: bit_imp_le_length)+

lemma ip64_upper: "drop_bit 48 (ip64_of_in6 a) = 0"
  unfolding ip64_of_in6_def
  by (rule bit_word_eqI) (auto simp add: bit_simps dest: bit_imp_le_length)

lemma nat_less_6_cases: "i < 6 \<Longrightarrow> i = 0 \<or> i = 1 \<or> i = 2 \<or> i = 3 \<or> i = 4 \<or> i = (5 :: nat)"
  by arith

text \<open>
  Claim C9, as amended. If \<open>REMOTE_ADDR\<close> parses as IPv6, the key holds the first 6 of
  the 16 address bytes in its lower 48 bits, byte 0 at bits 40..47 down to byte 5 at
  bits 0..7, and its upper 16 bits are zero; if only the IPv4 parse succeeds, the key
  is the 32-bit \<open>s_addr\<close> (the address in network byte order) widened to 64 bits; if
  neither succeeds, the key is 0.
\<close>

theorem remote_ip64_key:
  "(pton6 sip = Some a \<and> length a = 16 \<longrightarrow>
      (\<forall>i<6. ucast (drop_bit (40 - 8 * i) (remote_ip64 pton6 pton4 sip)) = a ! i) \<and>
      drop_bit 48 (remote_ip64 pton6 pton4 sip) = 0) \<and>
   (pton6 sip = None \<and> pton4 sip = Some s_addr \<longrightarrow>
      remote_ip64 pton6 pton4 sip = ucast s_addr) \<and>
   (pton6 sip = None \<and> pton4 sip = None \<longrightarrow> remote_ip64 pton6 pton4 sip = 0)"
proof -
  have "ucast (drop_bit (40 - 8 * i) (ip64_of_in6 a)) = a ! i" if "i < 6" for i
    using nat_less_6_cases [OF that] ip64_bytes [of a] by (elim disjE) simp_all
  then show ?thesis
    by (simp add: remote_ip64_def ip64_upper)
qed

text \<open>
  Claim C9 as stated puts the six bytes into the upper 48 bits of the key. For the
  address \<open>0:0:1::\<close>, whose byte 5 is 1 and whose other bytes are 0, the key is 1:
  the byte sits in bits 0..7, and the upper 48 bits of the key (bits 16..63) are zero.
\<close>

theorem remote_ip64_key_counterexample:
  "demo_pton6 ''0:0:1::'' = Some [0, 0, 0, 0, 0, 1, 0, 0, 0, 0, 0, 0, 0, 0, 0, 0] \<and>
   remote_ip64 demo_pton6 demo_pton4 ''0:0:1::'' = 1 \<and>
   drop_bit 16 (remote_ip64 demo_pton6 demo_pton4 ''0:0:1::'') = 0"
  by (simp add: remote_ip64_def demo_pton6_def ip64_of_in6_def)

text \<open>
  The theorem at the tables of the concrete instance: the address
  \<open>2001:db8:1234::1\<close> gives the key \<open>0x20010db81234\<close>, the address \<open>192.0.2.1\<close> gives its
  \<open>s_addr\<close>, and a string that is no address gives 0.
\<close>

theorem remote_ip64_key_witness:
  "demo_pton6 ''2001:db8:1234::1'' =
     Some [0x20, 0x01, 0x0d, 0xb8, 0x12, 0x34, 0, 0, 0, 0, 0, 0, 0, 0, 0, 1] \<and>
   length [0x20, 0x01, 0x0d, 0xb8, 0x12, 0x34, 0, 0, 0, 0, 0, 0, 0, 0, 0, 1 :: 8 word] = 16 \<and>
   remote_ip64 demo_pton6 demo_pton4 ''2001:db8:1234::1'' = 0x20010db81234 \<and>
   (ucast (drop_bit 40 (remote_ip64 demo_pton6 demo_pton4 ''2001:db8:1234::1'')) :: 8 word) = 0x20 \<and>
   (ucast (remote_ip64 demo_pton6 demo_pton4 ''2001:db8:1234::1'') :: 8 word) = 0x34 \<and>
   drop_bit 48 (remote_ip64 demo_pton6 demo_pton4 ''2001:db8:1234::1'') = 0 \<and>
   demo_pton6 ''192.0.2.1'' = None \<and> demo_pton4 ''192.0.2.1'' = Some 0x010200C0 \<and>
   remote_ip64 demo_pton6 demo_pton4 ''192.0.2.1'' = 0x010200C0 \<and>
   demo_pton6 ''nowhere'' = None \<and> demo_pton4 ''nowhere'' = None \<and>
   remote_ip64 demo_pton6 demo_pton4 ''nowhere'' = 0"
proof -
  have p: "demo_pton6 ''2001:db8:1234::1'' =
     Some [0x20, 0x01, 0x0d, 0xb8, 0x12, 0x34, 0, 0, 0, 0, 0, 0, 0, 0, 0, 1]"
    "demo_pton6 ''192.0.2.1'' = None" "demo_pton4 ''192.0.2.1'' = Some 0x010200C0"
    "demo_pton6 ''nowhere'' = None" "demo_pton4 ''nowhere'' = None"
    by (simp_all add: demo_pton6_def demo_pton4_def)
  have k: "remote_ip64 demo_pton6 demo_pton4 ''2001:db8:1234::1'' = 0x20010db81234"
    by (simp add: remote_ip64_def p ip64_of_in6_def)
  note a = remote_ip64_key [of demo_pton6 "''2001:db8:1234::1''"
      "[0x20, 0x01, 0x0d, 0xb8, 0x12, 0x34, 0, 0, 0, 0, 0, 0, 0, 0, 0, 1]" demo_pton4]
  note b = remote_ip64_key [of demo_pton6 "''192.0.2.1''" _ demo_pton4 "0x010200C0"]
  note c = remote_ip64_key [of demo_pton6 "''nowhere''" _ demo_pton4]
  from a p(1) have al: "\<forall>i<6. ucast (drop_bit (40 - 8 * i)
        (remote_ip64 demo_pton6 demo_pton4 ''2001:db8:1234::1'')) =
        [0x20, 0x01, 0x0d, 0xb8, 0x12, 0x34, 0, 0, 0, 0, 0, 0, 0, 0, 0, 1 :: 8 word] ! i"
    and au: "drop_bit 48 (remote_ip64 demo_pton6 demo_pton4 ''2001:db8:1234::1'') = 0"
    by simp_all
  have a0: "(ucast (drop_bit 40 (remote_ip64 demo_pton6 demo_pton4 ''2001:db8:1234::1'')) :: 8 word) = 0x20"
    using al [rule_format, of 0] by simp
  have a5: "(ucast (remote_ip64 demo_pton6 demo_pton4 ''2001:db8:1234::1'') :: 8 word) = 0x34"
    using al [rule_format, of 5] by simp
  from b p(2,3) have b': "remote_ip64 demo_pton6 demo_pton4 ''192.0.2.1'' = 0x010200C0" by simp
  from c p(4,5) have c': "remote_ip64 demo_pton6 demo_pton4 ''nowhere'' = 0" by simp
  show ?thesis
    using p k a0 a5 au b' c' by simp
qed

end
